theory Spec2Isabelle
  imports Complex_Main "HOL-Library.AList" "HOL-Library.Word"
begin

unbundle bit_operations_syntax

section \<open>JavaScript strings and the two regular expressions of the validators\<close>

text \<open>
  A JavaScript string is modelled as a \<open>string\<close>: the list of its code units, each an
  8-bit \<open>char\<close>. Everything the validators look at (the separators, the dot, the
  host names of the allow-list, the line terminators LF and CR) lies in that range.
\<close>

definition startsWith :: "string \<Rightarrow> string \<Rightarrow> bool" where
  \<comment> \<open>\<open>s.startsWith(p)\<close>\<close>
  "startsWith s p = (take (length p) s = p)"

fun replace :: "string \<Rightarrow> string \<Rightarrow> string \<Rightarrow> string" where
  \<comment> \<open>\<open>s.replace(pat, rep)\<close> with a string pattern: the first occurrence only\<close>
  "replace [] pat rep = (if pat = [] then rep else [])"
| "replace (c # cs) pat rep =
     (if startsWith (c # cs) pat then rep @ drop (length pat) (c # cs)
      else c # replace cs pat rep)"

text \<open>
  Regular expressions without back-references or look-around: for these,
  \<open>RegExp.prototype.test\<close> answers whether the string (anchored pattern) or one of its
  substrings (unanchored pattern) belongs to the language of the expression. A character
  class is a list of admitted or of excluded characters.
\<close>

datatype cclass = Within "char list" | Except "char list"

fun accepts :: "cclass \<Rightarrow> char \<Rightarrow> bool" where
  "accepts (Within cs) c = (c \<in> set cs)"
| "accepts (Except cs) c = (c \<notin> set cs)"

datatype rx = Void | Empty | Sym cclass | Cat rx rx | Alt rx rx | Star rx

definition Plus :: "rx \<Rightarrow> rx" where
  "Plus r = Cat r (Star r)"

fun Lit :: "string \<Rightarrow> rx" where
  "Lit [] = Empty"
| "Lit (c # cs) = Cat (Sym (Within [c])) (Lit cs)"

definition Dot :: rx where
  \<comment> \<open>\<open>.\<close> without the \<open>s\<close> flag: any character but a line terminator\<close>
  "Dot = Sym (Except [CHR 0x0A, CHR 0x0D])"

definition AnyChar :: rx where
  "AnyChar = Sym (Except [])"

fun nullable :: "rx \<Rightarrow> bool" where
  "nullable Void = False"
| "nullable Empty = True"
| "nullable (Sym k) = False"
| "nullable (Cat a b) = (nullable a \<and> nullable b)"
| "nullable (Alt a b) = (nullable a \<or> nullable b)"
| "nullable (Star a) = True"

fun deriv :: "char \<Rightarrow> rx \<Rightarrow> rx" where
  "deriv c Void = Void"
| "deriv c Empty = Void"
| "deriv c (Sym k) = (if accepts k c then Empty else Void)"
| "deriv c (Cat a b) =
     (if nullable a then Alt (Cat (deriv c a) b) (deriv c b) else Cat (deriv c a) b)"
| "deriv c (Alt a b) = Alt (deriv c a) (deriv c b)"
| "deriv c (Star a) = Cat (deriv c a) (Star a)"

fun matches :: "rx \<Rightarrow> string \<Rightarrow> bool" where
  \<comment> \<open>the whole string is in the language: \<open>/^r$/.test(s)\<close>\<close>
  "matches r [] = nullable r"
| "matches r (c # cs) = matches (deriv c r) cs"

definition test_unanchored :: "rx \<Rightarrow> string \<Rightarrow> bool" where
  \<comment> \<open>some substring is in the language: \<open>/r/.test(s)\<close>\<close>
  "test_unanchored r s = matches (Cat (Star AnyChar) (Cat r (Star AnyChar))) s"

subsection \<open>The validators\<close>

definition invalidPattern :: rx where
  \<comment> \<open>\<open>/[\/\\]|(\.\.)/\<close>\<close>
  "invalidPattern = Alt (Sym (Within [CHR ''/'', CHR 0x5C])) (Lit ''..'')"

definition validatePluginName :: "string \<Rightarrow> bool" where
  "validatePluginName pluginName = (\<not> test_unanchored invalidPattern pluginName)"

definition githubRegex :: rx where
  \<comment> \<open>\<open>/^https:\/\/github\.com\/[^/]+\/[^/]+\/(releases|archive)\/.*$/\<close>\<close>
  "githubRegex =
     Cat (Lit ''https://github.com/'')
    (Cat (Plus (Sym (Except ''/''))) (Cat (Lit ''/'')
    (Cat (Plus (Sym (Except ''/''))) (Cat (Lit ''/'')
    (Cat (Alt (Lit ''releases'') (Lit ''archive'')) (Cat (Lit ''/'') (Star Dot)))))))"

definition bitbucketRegex :: rx where
  \<comment> \<open>\<open>/^https:\/\/bitbucket\.org\/[^/]+\/[^/]+\/(downloads|get)\/.*$/\<close>\<close>
  "bitbucketRegex =
     Cat (Lit ''https://bitbucket.org/'')
    (Cat (Plus (Sym (Except ''/''))) (Cat (Lit ''/'')
    (Cat (Plus (Sym (Except ''/''))) (Cat (Lit ''/'')
    (Cat (Alt (Lit ''downloads'') (Lit ''get'')) (Cat (Lit ''/'') (Star Dot)))))))"

definition gitlabRegex :: rx where
  \<comment> \<open>\<open>/^https:\/\/gitlab\.com\/[^/]+\/[^/]+\/(-\/archive|releases)\/.*$/\<close>\<close>
  "gitlabRegex =
     Cat (Lit ''https://gitlab.com/'')
    (Cat (Plus (Sym (Except ''/''))) (Cat (Lit ''/'')
    (Cat (Plus (Sym (Except ''/''))) (Cat (Lit ''/'')
    (Cat (Alt (Lit ''-/archive'') (Lit ''releases'')) (Cat (Lit ''/'') (Star Dot)))))))"

definition validateArchiveURL :: "string \<Rightarrow> bool" where
  "validateArchiveURL archiveURL =
     (matches githubRegex archiveURL \<or>
      matches bitbucketRegex archiveURL \<or>
      matches gitlabRegex archiveURL \<or>
      startsWith archiveURL ''https://github.com/yolossn/headlamp-plugins/'')"


section \<open>Errors and JavaScript values\<close>

datatype error =
    Error string          \<comment> \<open>\<open>new Error(message)\<close>\<close>
  | TypeError string      \<comment> \<open>raised by the engine or a library on a value of the wrong kind\<close>
  | SyntaxError string    \<comment> \<open>raised by \<open>JSON.parse\<close> and \<open>response.json()\<close>\<close>
  | AbortError            \<comment> \<open>the rejection of a \<open>fetch\<close> whose signal is aborted\<close>
  | SystemError string    \<comment> \<open>raised by \<open>fs\<close>, named by its code (\<open>ENOENT\<close>, \<open>EACCES\<close>, ...)\<close>

fun message :: "error \<Rightarrow> string" where
  \<comment> \<open>\<open>e.message\<close>\<close>
  "message (Error m) = m"
| "message (TypeError m) = m"
| "message (SyntaxError m) = m"
| "message AbortError = ''This operation was aborted''"
| "message (SystemError c) = c"

text \<open>
  The values \<open>JSON.parse\<close> produces, and \<open>undefined\<close> for the result of reading a
  property that is not there. An object is the association list of its own properties.
\<close>

datatype jsval =
    Undefined | Null | Bool bool | Num real | Str string
  | Arr "jsval list" | Obj "(string \<times> jsval) list"

fun truthy :: "jsval \<Rightarrow> bool" where
  "truthy Undefined = False"
| "truthy Null = False"
| "truthy (Bool b) = b"
| "truthy (Num x) = (x \<noteq> 0)"
| "truthy (Str s) = (s \<noteq> [])"
| "truthy (Arr xs) = True"
| "truthy (Obj kvs) = True"

fun getprop :: "jsval \<Rightarrow> string \<Rightarrow> error + jsval" where
  \<comment> \<open>\<open>v.key\<close>, for the keys the plugin manager reads (\<open>name\<close>, \<open>version\<close>,
      \<open>artifacthub\<close>, \<open>isManagedByHeadlampPlugin\<close>, \<open>title\<close>, \<open>url\<close>, \<open>repoName\<close>,
      \<open>author\<close>): none of them is a property of a prototype\<close>
  "getprop Undefined key = Inl (TypeError ''Cannot read properties of undefined'')"
| "getprop Null key = Inl (TypeError ''Cannot read properties of null'')"
| "getprop (Obj kvs) key = Inr (case map_of kvs key of None \<Rightarrow> Undefined | Some v \<Rightarrow> v)"
| "getprop v key = Inr Undefined"

fun setprop :: "jsval \<Rightarrow> string \<Rightarrow> jsval \<Rightarrow> error + jsval" where
  \<comment> \<open>\<open>v.key = x\<close> in strict mode (the file is an ES module); the result is the value
      as \<open>JSON.stringify\<close> will see it, so a property set on an array is not kept\<close>
  "setprop (Obj kvs) key x = Inr (Obj (AList.update key x kvs))"
| "setprop (Arr xs) key x = Inr (Arr xs)"
| "setprop Undefined key x = Inl (TypeError ''Cannot set properties of undefined'')"
| "setprop Null key x = Inl (TypeError ''Cannot set properties of null'')"
| "setprop v key x = Inl (TypeError ''Cannot create property'')"

section \<open>The file system\<close>

text \<open>
  A tree of directories and text files; a path is the list of its components from the
  root. The operating system may refuse to create, overwrite or remove an entry
  (permissions, a lock, a full disk): \<open>refuses\<close> says for which paths.
\<close>

datatype node = File string | Dir "(string \<times> node) list"

type_synonym path = "string list"

fun lookup :: "node \<Rightarrow> path \<Rightarrow> node option" where
  "lookup n [] = Some n"
| "lookup (File s) (c # p) = None"
| "lookup (Dir es) (c # p) = (case map_of es c of None \<Rightarrow> None | Some n \<Rightarrow> lookup n p)"

fun isDirectory :: "node \<Rightarrow> bool" where
  "isDirectory (Dir es) = True"
| "isDirectory (File s) = False"

definition existsSync :: "node \<Rightarrow> path \<Rightarrow> bool" where
  "existsSync fs p = (case lookup fs p of None \<Rightarrow> False | Some n \<Rightarrow> True)"

definition readFileSync :: "node \<Rightarrow> path \<Rightarrow> error + string" where
  "readFileSync fs p =
     (case lookup fs p of
        None \<Rightarrow> Inl (SystemError ''ENOENT'')
      | Some (Dir es) \<Rightarrow> Inl (SystemError ''EISDIR'')
      | Some (File s) \<Rightarrow> Inr s)"

definition readdirSync :: "node \<Rightarrow> path \<Rightarrow> error + (string \<times> node) list" where
  \<comment> \<open>\<open>fs.readdirSync(p, { withFileTypes: true })\<close>: the entries, each with its node
      (of which the caller asks \<open>isDirectory\<close>)\<close>
  "readdirSync fs p =
     (case lookup fs p of
        None \<Rightarrow> Inl (SystemError ''ENOENT'')
      | Some (File s) \<Rightarrow> Inl (SystemError ''ENOTDIR'')
      | Some (Dir es) \<Rightarrow> Inr es)"

text \<open>
  \<open>alter p f fs\<close> replaces what stands at \<open>p\<close> (nothing, a file or a directory) by what
  \<open>f\<close> makes of it; directories missing on the way are created when \<open>f\<close> puts
  something there. A file on the way is left alone: the callers check for it first.
\<close>

fun alter :: "path \<Rightarrow> (node option \<Rightarrow> node option) \<Rightarrow> node option \<Rightarrow> node option" where
  "alter [] f n = f n"
| "alter (c # p) f (Some (File s)) = Some (File s)"
| "alter (c # p) f (Some (Dir es)) =
     (case alter p f (map_of es c) of
        None \<Rightarrow> Some (Dir (AList.delete c es))
      | Some x \<Rightarrow> Some (Dir (AList.update c x es)))"
| "alter (c # p) f None =
     (case alter p f None of None \<Rightarrow> None | Some x \<Rightarrow> Some (Dir [(c, x)]))"

definition alter_fs :: "path \<Rightarrow> (node option \<Rightarrow> node option) \<Rightarrow> node \<Rightarrow> node" where
  \<comment> \<open>the root is a directory and is never removed\<close>
  "alter_fs p f fs = (case alter p f (Some fs) of None \<Rightarrow> Dir [] | Some x \<Rightarrow> x)"


subsection \<open>The mutating calls of \<open>fs\<close>\<close>

text \<open>
  Each returns the file system it leaves behind together with its result: a call that
  fails half-way has done the first half.
\<close>

fun mkdir_from ::
  "(path \<Rightarrow> bool) \<Rightarrow> path \<Rightarrow> path \<Rightarrow> path option \<Rightarrow> node \<Rightarrow> (error + path option) \<times> node" where
  "mkdir_from refuses q [] first fs = (Inr first, fs)"
| "mkdir_from refuses q (c # cs) first fs =
     (case lookup fs (q @ [c]) of
        Some (Dir es) \<Rightarrow> mkdir_from refuses (q @ [c]) cs first fs
      | Some (File s) \<Rightarrow> (Inl (SystemError (if cs = [] then ''EEXIST'' else ''ENOTDIR'')), fs)
      | None \<Rightarrow>
          if refuses (q @ [c]) then (Inl (SystemError ''EACCES''), fs)
          else mkdir_from refuses (q @ [c]) cs
                 (case first of None \<Rightarrow> Some (q @ [c]) | Some d \<Rightarrow> Some d)
                 (alter_fs (q @ [c]) (\<lambda>old. Some (Dir [])) fs))"

definition mkdirSync :: "(path \<Rightarrow> bool) \<Rightarrow> path \<Rightarrow> node \<Rightarrow> (error + path option) \<times> node" where
  \<comment> \<open>\<open>fs.mkdirSync(p, { recursive: true })\<close>: the first directory created, or
      \<open>undefined\<close> (here \<open>None\<close>) when all were there\<close>
  "mkdirSync refuses p fs = mkdir_from refuses [] p None fs"

definition writeFileSync :: "(path \<Rightarrow> bool) \<Rightarrow> path \<Rightarrow> string \<Rightarrow> node \<Rightarrow> (error + unit) \<times> node" where
  "writeFileSync refuses p text fs =
     (if p = [] then (Inl (SystemError ''EISDIR''), fs)
      else case lookup fs (butlast p) of
        None \<Rightarrow> (Inl (SystemError ''ENOENT''), fs)
      | Some (File s) \<Rightarrow> (Inl (SystemError ''ENOTDIR''), fs)
      | Some (Dir es) \<Rightarrow>
          (case lookup fs p of
             Some (Dir ds) \<Rightarrow> (Inl (SystemError ''EISDIR''), fs)
           | Some (File s) \<Rightarrow>
               if refuses p then (Inl (SystemError ''EACCES''), fs)
               else (Inr (), alter_fs p (\<lambda>old. Some (File text)) fs)
           | None \<Rightarrow>
               if refuses p then (Inl (SystemError ''EACCES''), fs)
               else (Inr (), alter_fs p (\<lambda>old. Some (File text)) fs)))"

text \<open>
  Recursive removal empties a directory entry by entry, then removes the directory; it
  stops at the first entry the system refuses to remove. The result is what is left of
  the tree (\<open>None\<close>: all of it is gone) and the error, if any.
\<close>

fun rm_tree :: "(path \<Rightarrow> bool) \<Rightarrow> path \<Rightarrow> node \<Rightarrow> node option \<times> error option"
  and rm_entries ::
    "(path \<Rightarrow> bool) \<Rightarrow> path \<Rightarrow> (string \<times> node) list \<Rightarrow> (string \<times> node) list \<times> error option" where
  "rm_tree refuses p (File s) =
     (if refuses p then (Some (File s), Some (SystemError ''EACCES'')) else (None, None))"
| "rm_tree refuses p (Dir es) =
     (case rm_entries refuses p es of
        (left, Some e) \<Rightarrow> (Some (Dir left), Some e)
      | (left, None) \<Rightarrow>
          if refuses p then (Some (Dir left), Some (SystemError ''EACCES'')) else (None, None))"
| "rm_entries refuses p [] = ([], None)"
| "rm_entries refuses p ((c, n) # es) =
     (case rm_tree refuses (p @ [c]) n of
        (Some n', err) \<Rightarrow> ((c, n') # es, err)
      | (None, Some e) \<Rightarrow> (es, Some e)
      | (None, None) \<Rightarrow> rm_entries refuses p es)"

definition rmSync :: "(path \<Rightarrow> bool) \<Rightarrow> path \<Rightarrow> node \<Rightarrow> (error + unit) \<times> node" where
  \<comment> \<open>\<open>fs.rmSync(p, { recursive: true })\<close>, without \<open>force\<close>: a missing path is an error\<close>
  "rmSync refuses p fs =
     (case lookup fs p of
        None \<Rightarrow> (Inl (SystemError ''ENOENT''), fs)
      | Some n \<Rightarrow>
          (case rm_tree refuses p n of
             (left, Some e) \<Rightarrow> (Inl e, alter_fs p (\<lambda>old. left) fs)
           | (left, None) \<Rightarrow> (Inr (), alter_fs p (\<lambda>old. left) fs)))"

definition rmdirSync :: "(path \<Rightarrow> bool) \<Rightarrow> path \<Rightarrow> node \<Rightarrow> (error + unit) \<times> node" where
  \<comment> \<open>\<open>fs.rmdirSync(p, { recursive: true })\<close>: as \<open>rmSync\<close>, for a directory only\<close>
  "rmdirSync refuses p fs =
     (case lookup fs p of
        None \<Rightarrow> (Inl (SystemError ''ENOENT''), fs)
      | Some (File s) \<Rightarrow> (Inl (SystemError ''ENOTDIR''), fs)
      | Some (Dir es) \<Rightarrow> rmSync refuses p fs)"

text \<open>
  Recursive copy with \<open>force\<close>: a file replaces the file of the same name, a directory
  is merged into the directory of the same name, and copying a file over a directory or
  a directory over a file is an error. The copy stops at the first entry the system
  refuses to write. The result is what stands at the destination afterwards.
\<close>

fun cp_tree ::
    "(path \<Rightarrow> bool) \<Rightarrow> path \<Rightarrow> node \<Rightarrow> node option \<Rightarrow> node option \<times> error option"
  and cp_entries ::
    "(path \<Rightarrow> bool) \<Rightarrow> path \<Rightarrow> (string \<times> node) list \<Rightarrow> (string \<times> node) list \<Rightarrow>
       (string \<times> node) list \<times> error option" where
  "cp_tree refuses p (File s) dst =
     (case dst of
        Some (Dir ds) \<Rightarrow> (dst, Some (SystemError ''ERR_FS_CP_NON_DIR_TO_DIR''))
      | Some (File t) \<Rightarrow>
          if refuses p then (dst, Some (SystemError ''EACCES'')) else (Some (File s), None)
      | None \<Rightarrow>
          if refuses p then (dst, Some (SystemError ''EACCES'')) else (Some (File s), None))"
| "cp_tree refuses p (Dir es) dst =
     (case dst of
        Some (File t) \<Rightarrow> (dst, Some (SystemError ''ERR_FS_CP_DIR_TO_NON_DIR''))
      | Some (Dir ds) \<Rightarrow>
          (case cp_entries refuses p es ds of (ds', err) \<Rightarrow> (Some (Dir ds'), err))
      | None \<Rightarrow>
          if refuses p then (None, Some (SystemError ''EACCES''))
          else (case cp_entries refuses p es [] of (ds', err) \<Rightarrow> (Some (Dir ds'), err)))"
| "cp_entries refuses p [] ds = (ds, None)"
| "cp_entries refuses p ((c, n) # es) ds =
     (case cp_tree refuses (p @ [c]) n (map_of ds c) of
        (None, err) \<Rightarrow> (ds, err)
      | (Some n', Some e) \<Rightarrow> (AList.update c n' ds, Some e)
      | (Some n', None) \<Rightarrow> cp_entries refuses p es (AList.update c n' ds))"


definition inside :: "path \<Rightarrow> path \<Rightarrow> bool" where
  \<comment> \<open>\<open>q\<close> is \<open>p\<close> or lies below it\<close>
  "inside p q = (take (length p) q = p)"

fun file_above :: "node \<Rightarrow> path \<Rightarrow> bool" where
  \<comment> \<open>a file stands where the path needs a directory\<close>
  "file_above n [] = False"
| "file_above (File s) (c # p) = True"
| "file_above (Dir es) (c # p) = (case map_of es c of None \<Rightarrow> False | Some n \<Rightarrow> file_above n p)"

definition cpSync :: "(path \<Rightarrow> bool) \<Rightarrow> path \<Rightarrow> path \<Rightarrow> node \<Rightarrow> (error + unit) \<times> node" where
  \<comment> \<open>\<open>fs.cpSync(src, dst, { recursive: true, force: true })\<close>: the source must exist,
      must not be the destination nor a directory above it; the directories above the
      destination are created when they are missing\<close>
  "cpSync refuses src dst fs =
     (case lookup fs src of
        None \<Rightarrow> (Inl (SystemError ''ENOENT''), fs)
      | Some n \<Rightarrow>
          if src = dst \<or> (isDirectory n \<and> inside src dst)
          then (Inl (SystemError ''ERR_FS_CP_EINVAL''), fs)
          else if file_above fs dst then (Inl (SystemError ''ENOTDIR''), fs)
          else
            (case cp_tree refuses dst n (lookup fs dst) of
               (res, Some e) \<Rightarrow> (Inl e, alter_fs dst (\<lambda>old. res) fs)
             | (res, None) \<Rightarrow> (Inr (), alter_fs dst (\<lambda>old. res) fs)))"

definition mkdtempSync :: "(path \<Rightarrow> bool) \<Rightarrow> path \<Rightarrow> string \<Rightarrow> string \<Rightarrow> node \<Rightarrow> (error + path) \<times> node" where
  \<comment> \<open>\<open>fs.mkdtempSync(path.join(dir, prefix))\<close>: a new directory named by the prefix and
      the characters the system picks (\<open>suffix\<close>)\<close>
  "mkdtempSync refuses dir prefix suffix fs =
     (case lookup fs dir of
        None \<Rightarrow> (Inl (SystemError ''ENOENT''), fs)
      | Some (File s) \<Rightarrow> (Inl (SystemError ''ENOTDIR''), fs)
      | Some (Dir es) \<Rightarrow>
          if existsSync fs (dir @ [prefix @ suffix]) then (Inl (SystemError ''EEXIST''), fs)
          else if refuses (dir @ [prefix @ suffix]) then (Inl (SystemError ''EACCES''), fs)
          else (Inr (dir @ [prefix @ suffix]),
                alter_fs (dir @ [prefix @ suffix]) (\<lambda>old. Some (Dir [])) fs))"

definition path_join :: "path \<Rightarrow> string \<Rightarrow> path" where
  \<comment> \<open>\<open>path.join(dir, c)\<close> for one component \<open>c\<close> (no separator in it)\<close>
  "path_join dir c =
     (if c = [] \<or> c = ''.'' then dir else if c = ''..'' then butlast dir else dir @ [c])"

section \<open>SHA-256\<close>

text \<open>
  \<open>crypto.createHash('sha256').update(buffer).digest('hex')\<close>: the digest of FIPS 180-4
  over 32-bit words, written as 64 lowercase hexadecimal digits.
\<close>

type_synonym bytes = "8 word list"

type_synonym w32 = "32 word"

definition hexval :: "char \<Rightarrow> nat" where
  "hexval c = (if of_char c < (58::nat) then of_char c - 48 else of_char c - 87)"

definition word_of_hex :: "string \<Rightarrow> w32" where
  "word_of_hex s = foldl (\<lambda>acc c. 16 * acc + of_nat (hexval c)) 0 s"

definition K256 :: "w32 list" where
  \<comment> \<open>the round constants\<close>
  "K256 = map word_of_hex
     [''428a2f98'', ''71374491'', ''b5c0fbcf'', ''e9b5dba5'', ''3956c25b'', ''59f111f1'',
      ''923f82a4'', ''ab1c5ed5'', ''d807aa98'', ''12835b01'', ''243185be'', ''550c7dc3'',
      ''72be5d74'', ''80deb1fe'', ''9bdc06a7'', ''c19bf174'', ''e49b69c1'', ''efbe4786'',
      ''0fc19dc6'', ''240ca1cc'', ''2de92c6f'', ''4a7484aa'', ''5cb0a9dc'', ''76f988da'',
      ''983e5152'', ''a831c66d'', ''b00327c8'', ''bf597fc7'', ''c6e00bf3'', ''d5a79147'',
      ''06ca6351'', ''14292967'', ''27b70a85'', ''2e1b2138'', ''4d2c6dfc'', ''53380d13'',
      ''650a7354'', ''766a0abb'', ''81c2c92e'', ''92722c85'', ''a2bfe8a1'', ''a81a664b'',
      ''c24b8b70'', ''c76c51a3'', ''d192e819'', ''d6990624'', ''f40e3585'', ''106aa070'',
      ''19a4c116'', ''1e376c08'', ''2748774c'', ''34b0bcb5'', ''391c0cb3'', ''4ed8aa4a'',
      ''5b9cca4f'', ''682e6ff3'', ''748f82ee'', ''78a5636f'', ''84c87814'', ''8cc70208'',
      ''90befffa'', ''a4506ceb'', ''bef9a3f7'', ''c67178f2'']"

definition H256 :: "w32 list" where
  \<comment> \<open>the initial hash value\<close>
  "H256 = map word_of_hex
     [''6a09e667'', ''bb67ae85'', ''3c6ef372'', ''a54ff53a'',
      ''510e527f'', ''9b05688c'', ''1f83d9ab'', ''5be0cd19'']"

definition ssig0 :: "w32 \<Rightarrow> w32" where
  "ssig0 x = word_rotr 7 x XOR word_rotr 18 x XOR drop_bit 3 x"

definition ssig1 :: "w32 \<Rightarrow> w32" where
  "ssig1 x = word_rotr 17 x XOR word_rotr 19 x XOR drop_bit 10 x"

definition bsig0 :: "w32 \<Rightarrow> w32" where
  "bsig0 x = word_rotr 2 x XOR word_rotr 13 x XOR word_rotr 22 x"

definition bsig1 :: "w32 \<Rightarrow> w32" where
  "bsig1 x = word_rotr 6 x XOR word_rotr 11 x XOR word_rotr 25 x"

definition ch :: "w32 \<Rightarrow> w32 \<Rightarrow> w32 \<Rightarrow> w32" where
  "ch x y z = (x AND y) XOR (NOT x AND z)"

definition maj :: "w32 \<Rightarrow> w32 \<Rightarrow> w32 \<Rightarrow> w32" where
  "maj x y z = (x AND y) XOR (x AND z) XOR (y AND z)"

fun be32 :: "bytes \<Rightarrow> w32 list" where
  \<comment> \<open>the big-endian words of a block\<close>
  "be32 (a # b # c # d # r) =
     (push_bit 24 (ucast a) OR push_bit 16 (ucast b) OR push_bit 8 (ucast c) OR ucast d) # be32 r"
| "be32 r = []"

fun extend :: "nat \<Rightarrow> w32 list \<Rightarrow> w32 list" where
  \<comment> \<open>the message schedule, newest word first\<close>
  "extend 0 ws = ws"
| "extend (Suc n) ws = extend n ((ssig1 (ws ! 1) + ws ! 6 + ssig0 (ws ! 14) + ws ! 15) # ws)"

fun rounds :: "w32 list \<Rightarrow> w32 list \<Rightarrow> w32 list \<Rightarrow> w32 list" where
  "rounds (k # ks) (x # xs) [a, b, c, d, e, f, g, h] =
     rounds ks xs
       [h + bsig1 e + ch e f g + k + x + (bsig0 a + maj a b c), a, b, c,
        d + (h + bsig1 e + ch e f g + k + x), e, f, g]"
| "rounds ks xs st = st"

definition compress :: "w32 list \<Rightarrow> bytes \<Rightarrow> w32 list" where
  "compress st block = map2 (+) st (rounds K256 (rev (extend 48 (rev (be32 block)))) st)"

function blocks :: "w32 list \<Rightarrow> bytes \<Rightarrow> w32 list" where
  "blocks st bs = (if length bs < 64 then st else blocks (compress st (take 64 bs)) (drop 64 bs))"
  by pat_completeness auto
termination
  by (relation "measure (\<lambda>(st, bs). length bs)") auto

definition pad :: "bytes \<Rightarrow> bytes" where
  "pad m = m @ [0x80] @ replicate ((119 - length m mod 64) mod 64) 0 @
     map (\<lambda>i. ucast (drop_bit (8 * i) (word_of_nat (8 * length m) :: 64 word)))
       [7, 6, 5, 4, 3, 2, 1, 0]"

definition hexdigit :: "nat \<Rightarrow> char" where
  "hexdigit n = ''0123456789abcdef'' ! n"

definition hex32 :: "w32 \<Rightarrow> string" where
  "hex32 x = map (\<lambda>i. hexdigit (unat (drop_bit (4 * i) x AND 0xF))) [7, 6, 5, 4, 3, 2, 1, 0]"

definition sha256_hex :: "bytes \<Rightarrow> string" where
  "sha256_hex m = concat (map hex32 (blocks H256 (pad m)))"

section \<open>The platform and the world\<close>

record Repository =
  repository_name :: string
  user_alias :: string

record ArtifactHubHeadlampPkg =
  name :: string
  display_name :: string
  repository :: Repository
  version :: string
  archiveURL :: "string option"
  archiveChecksum :: "string option"
  distroCompat :: "string option"
  versionCompat :: "string option"

text \<open>
  The registry's answer as \<open>response.json()\<close> gives it: the four plugin annotations are
  the entries of \<open>data\<close>, each of which may be missing (\<open>undefined\<close>, here \<open>None\<close>).
\<close>

record PkgResponse =
  response_name :: string
  response_display_name :: string
  response_version :: string
  response_repository :: Repository
  response_data :: "(string \<times> string) list option"

datatype 'a fetch_result =
    Rejected error            \<comment> \<open>the promise of \<open>fetch\<close> rejects\<close>
  | Response bool nat 'a      \<comment> \<open>\<open>ok\<close>, \<open>status\<close> and the body\<close>

text \<open>
  What the code takes from its libraries and from the outside: the JSON functions, the
  two \<open>semver\<close> functions (\<open>lte\<close> throws on a string
  that is no version: \<open>None\<close>), the registry and the download servers, the archive format
  (the entries an archive unpacks to with one leading component stripped, and the error
  that the \<open>tar\<close> stream emits if it fails), the directories of the process, and what
  the operating system refuses. The body of a download is absent (\<open>null\<close>), or its
  chunks followed by the error that ends the stream early, if one does.

  Of the two streams of lines 505 to 511 only the last, the \<open>tar\<close> stream, has a
  listener for \<open>error\<close> (line 517): \<open>untar\<close> gives what that stream writes and the
  error it emits. When the gunzip stream fails instead, its error reaches no one, the
  promise of lines 513 to 520 is never settled and \<open>downloadExtractArchive\<close> does not
  return; such a run has no outcome among the values of this model, and nothing below
  is said of it.
\<close>

record platform =
  JSON_parse :: "string \<Rightarrow> jsval option"
  JSON_stringify :: "jsval \<Rightarrow> string"
  semver_lte :: "string \<Rightarrow> string \<Rightarrow> bool option"
  semver_satisfies :: "string \<Rightarrow> string option \<Rightarrow> bool"
  registry :: "string \<Rightarrow> (error + PkgResponse) fetch_result"
  downloads :: "string \<Rightarrow> ((bytes list \<times> error option) option) fetch_result"
  untar :: "bytes \<Rightarrow> (string \<times> node) list \<times> error option"
  tmpdir :: path
  cwd :: path
  mkdtemp_suffix :: string
  os_refuses :: "path \<Rightarrow> bool"

record PluginData =
  pluginName :: jsval
  pluginTitle :: jsval
  pluginVersion :: jsval
  folderName :: string
  artifacthubURL :: jsval
  repoName :: jsval
  author :: jsval
  artifacthubVersion :: jsval

record ProgressResp =
  type :: string
  message_text :: string
  data :: "PluginData list option"

text \<open>
  The world an operation acts on: the file system, and the log of what it did towards
  the outside, in order: the calls of the progress callback, the HTTP requests issued,
  and the archives handed to the extractor (with the directory they go to).
\<close>

datatype effect = Progress ProgressResp | Request string | Extract bytes path

record world =
  fs :: node
  log :: "effect list"

text \<open>
  An \<open>AbortSignal\<close> fires at most once and stays aborted. An operation reads it at
  numbered instants, in order; \<open>AbortsAt k\<close> is aborted from instant \<open>k\<close> on.
  The parameter is \<open>AbortSignal | null\<close>.
\<close>

datatype AbortSignal = AbortsAt nat | NeverAborts

fun aborted :: "AbortSignal option \<Rightarrow> nat \<Rightarrow> bool" where
  \<comment> \<open>\<open>signal && signal.aborted\<close>, read at instant \<open>t\<close>\<close>
  "aborted None t = False"
| "aborted (Some NeverAborts) t = False"
| "aborted (Some (AbortsAt k)) t = (k \<le> t)"

fun later :: "nat \<Rightarrow> AbortSignal option \<Rightarrow> AbortSignal option" where
  \<comment> \<open>the same signal, for a callee that starts \<open>n\<close> instants later\<close>
  "later n (Some (AbortsAt k)) = Some (AbortsAt (k - n))"
| "later n sig = sig"

definition emit :: "bool \<Rightarrow> ProgressResp \<Rightarrow> world \<Rightarrow> world" where
  \<comment> \<open>\<open>if (progressCallback) { progressCallback(resp); }\<close>\<close>
  "emit cb resp w = (if cb then w\<lparr>log := log w @ [Progress resp]\<rparr> else w)"

definition info :: "string \<Rightarrow> ProgressResp" where
  "info m = \<lparr>type = ''info'', message_text = m, data = None\<rparr>"

definition success :: "string \<Rightarrow> ProgressResp" where
  "success m = \<lparr>type = ''success'', message_text = m, data = None\<rparr>"

definition failure :: "error \<Rightarrow> ProgressResp" where
  \<comment> \<open>\<open>{ type: 'error', message: e.message }\<close>\<close>
  "failure e = \<lparr>type = ''error'', message_text = message e, data = None\<rparr>"

definition on_fs :: "(node \<Rightarrow> (error + 'a) \<times> node) \<Rightarrow> world \<Rightarrow> (error + 'a) \<times> world" where
  "on_fs call w = (case call (fs w) of (r, fs') \<Rightarrow> (r, w\<lparr>fs := fs'\<rparr>))"

definition fetch :: "(string \<Rightarrow> 'a fetch_result) \<Rightarrow> string \<Rightarrow> bool \<Rightarrow> world \<Rightarrow> 'a fetch_result \<times> world" where
  \<comment> \<open>\<open>fetch(url, { redirect: 'follow', signal })\<close>: with a signal already aborted the
      promise rejects and no request is made\<close>
  "fetch server url is_aborted w =
     (if is_aborted then (Rejected AbortError, w)
      else (server url, w\<lparr>log := log w @ [Request url]\<rparr>))"

definition digit_char :: "nat \<Rightarrow> char" where
  "digit_char n = ''0123456789'' ! n"

function decimal :: "nat \<Rightarrow> string" where
  \<comment> \<open>a number in a template string\<close>
  "decimal n = (if n < 10 then [digit_char n] else decimal (n div 10) @ [digit_char (n mod 10)])"
  by pat_completeness auto
termination
  by (relation "measure id") auto


section \<open>The plugin manager\<close>

subsection \<open>\<open>checkValidPluginFolder\<close> and \<open>list\<close>\<close>

definition parse_file :: "platform \<Rightarrow> node \<Rightarrow> path \<Rightarrow> error + jsval" where
  \<comment> \<open>\<open>JSON.parse(fs.readFileSync(p, 'utf8'))\<close>\<close>
  "parse_file env files p =
     (case readFileSync files p of
        Inl e \<Rightarrow> Inl e
      | Inr text \<Rightarrow>
          (case JSON_parse env text of
             None \<Rightarrow> Inl (SyntaxError ''Unexpected token in JSON'')
           | Some v \<Rightarrow> Inr v))"

definition checkValidPluginFolder :: "platform \<Rightarrow> node \<Rightarrow> path \<Rightarrow> error + bool" where
  "checkValidPluginFolder env files folder =
     (if \<not> existsSync files folder then Inr False
      else if \<not> (existsSync files (folder @ [''main.js'']) \<and>
                  existsSync files (folder @ [''package.json''])) then Inr False
      else
        (case parse_file env files (folder @ [''package.json'']) of
           Inl e \<Rightarrow> Inl e
         | Inr packageJSON \<Rightarrow>
             (case getprop packageJSON ''isManagedByHeadlampPlugin'' of
                Inl e \<Rightarrow> Inl e
              | Inr flag \<Rightarrow> if truthy flag then Inr True else Inr False)))"

definition orElse :: "jsval \<Rightarrow> jsval \<Rightarrow> jsval" where
  \<comment> \<open>\<open>a || b\<close>\<close>
  "orElse a b = (if truthy a then a else b)"

definition artifacthub_field :: "jsval \<Rightarrow> string \<Rightarrow> jsval" where
  \<comment> \<open>\<open>packageJson.artifacthub ? packageJson.artifacthub.key : null\<close>, with
      \<open>packageJson.artifacthub\<close> already read\<close>
  "artifacthub_field hub key =
     (if truthy hub then (case getprop hub key of Inl e \<Rightarrow> Undefined | Inr v \<Rightarrow> v) else Null)"

definition read_plugin :: "platform \<Rightarrow> node \<Rightarrow> path \<Rightarrow> string \<Rightarrow> error + PluginData" where
  \<comment> \<open>the body of the loop of \<open>list\<close> for a valid folder: the entry it pushes\<close>
  "read_plugin env files folder entry_name =
     (case parse_file env files (folder @ [entry_name] @ [''package.json'']) of
        Inl e \<Rightarrow> Inl e
      | Inr packageJson \<Rightarrow>
          (case getprop packageJson ''name'' of
             Inl e \<Rightarrow> Inl e
           | Inr nm \<Rightarrow>
               (case getprop packageJson ''artifacthub'' of
                  Inl e \<Rightarrow> Inl e
                | Inr hub \<Rightarrow>
                    (case getprop hub ''title'' of
                       Inl e \<Rightarrow> Inl e
                     | Inr title \<Rightarrow>
                         (case getprop packageJson ''version'' of
                            Inl e \<Rightarrow> Inl e
                          | Inr ver \<Rightarrow>
                              Inr \<lparr>pluginName = orElse nm (Str entry_name),
                                   pluginTitle = title,
                                   pluginVersion = orElse ver Null,
                                   folderName = entry_name,
                                   artifacthubURL = artifacthub_field hub ''url'',
                                   repoName = artifacthub_field hub ''repoName'',
                                   author = artifacthub_field hub ''author'',
                                   artifacthubVersion = artifacthub_field hub ''version''\<rparr>)))))"

fun list_loop ::
  "platform \<Rightarrow> node \<Rightarrow> path \<Rightarrow> (string \<times> node) list \<Rightarrow> PluginData list \<Rightarrow> error + PluginData list" where
  \<comment> \<open>\<open>for (const pluginFolder of pluginFolders)\<close>, with \<open>pluginsData\<close> so far\<close>
  "list_loop env files folder [] pluginsData = Inr pluginsData"
| "list_loop env files folder (pluginFolder # others) pluginsData =
     (case checkValidPluginFolder env files (folder @ [fst pluginFolder]) of
        Inl e \<Rightarrow> Inl e
      | Inr valid \<Rightarrow>
          if valid then
            (case read_plugin env files folder (fst pluginFolder) of
               Inl e \<Rightarrow> Inl e
             | Inr entry \<Rightarrow> list_loop env files folder others (pluginsData @ [entry]))
          else list_loop env files folder others pluginsData)"

definition list_plugins :: "platform \<Rightarrow> node \<Rightarrow> path \<Rightarrow> error + PluginData list" where
  \<comment> \<open>the \<open>try\<close> block of \<open>list\<close> up to the report\<close>
  "list_plugins env files folder =
     (case readdirSync files folder of
        Inl e \<Rightarrow> Inl e
      | Inr entries \<Rightarrow>
          list_loop env files folder (filter (\<lambda>entry. isDirectory (snd entry)) entries) [])"

definition list_dir ::
  "platform \<Rightarrow> path \<Rightarrow> bool \<Rightarrow> world \<Rightarrow> (error + PluginData list option) \<times> world" where
  \<comment> \<open>\<open>PluginManager.list(folder, progressCallback)\<close>; with a callback the result is
      \<open>undefined\<close> (here \<open>None\<close>)\<close>
  "list_dir env folder cb w =
     (case list_plugins env (fs w) folder of
        Inr pluginsData \<Rightarrow>
          if cb then
            (Inr None,
             emit cb \<lparr>type = ''success'', message_text = ''Plugins Listed'',
                      data = Some pluginsData\<rparr> w)
          else (Inr (Some pluginsData), w)
      | Inl e \<Rightarrow> if cb then (Inr None, emit cb (failure e) w) else (Inl e, w))"

text \<open>
  The name under which \<open>list\<close> enters the directory \<open>d\<close> of \<open>folder\<close>, as lines 311 to
  313 compute it; \<open>uninstall\<close> and \<open>update\<close> look their plugin up by this name.
\<close>

definition listed_name :: "platform \<Rightarrow> node \<Rightarrow> path \<Rightarrow> string \<Rightarrow> error + jsval" where
  \<comment> \<open>\<open>packageJson.name || pluginFolder.name\<close>\<close>
  "listed_name env files folder d =
     (case parse_file env files (folder @ [d] @ [''package.json'']) of
        Inl e \<Rightarrow> Inl e
      | Inr packageJson \<Rightarrow>
          (case getprop packageJson ''name'' of
             Inl e \<Rightarrow> Inl e
           | Inr nm \<Rightarrow> Inr (orElse nm (Str d))))"

subsection \<open>\<open>moveDirs\<close>\<close>

definition moveDirs :: "platform \<Rightarrow> path \<Rightarrow> path \<Rightarrow> node \<Rightarrow> (error + unit) \<times> node" where
  \<comment> \<open>the \<open>catch\<close> logs and rethrows\<close>
  "moveDirs env currentPath newPath files =
     (case cpSync (os_refuses env) currentPath newPath files of
        (Inl err, files1) \<Rightarrow> (Inl err, files1)
      | (Inr u, files1) \<Rightarrow>
          (case rmSync (os_refuses env) currentPath files1 of
             (Inl err, files2) \<Rightarrow> (Inl err, files2)
           | (Inr v, files2) \<Rightarrow> (Inr (), files2)))"


subsection \<open>\<open>fetchPluginInfo\<close>\<close>

definition fetchPluginInfo_try ::
  "platform \<Rightarrow> jsval \<Rightarrow> bool \<Rightarrow> AbortSignal option \<Rightarrow> world \<Rightarrow>
     (error + ArtifactHubHeadlampPkg) \<times> world" where
  \<comment> \<open>the \<open>try\<close> block; the signal is read once, by \<open>fetch\<close>, at instant 0\<close>
  "fetchPluginInfo_try env URL cb signal w =
     (case URL of
        Str u \<Rightarrow>
          if \<not> startsWith u ''https://artifacthub.io/packages/headlamp/''
          then (Inl (Error ''Invalid URL. Please provide a valid URL from ArtifactHub.''), w)
          else
            (case fetch (registry env)
                    (replace u ''https://artifacthub.io/packages/headlamp/''
                               ''https://artifacthub.io/api/v1/packages/headlamp/'')
                    (aborted signal 0)
                    (emit cb (info ''Fetching Plugin Metadata'') w) of
               (Rejected e, w1) \<Rightarrow> (Inl e, w1)
             | (Response ok status body, w1) \<Rightarrow>
                 if \<not> ok then (Inl (Error (''HTTP error! status: '' @ decimal status)), w1)
                 else
                   (case body of
                      Inl e \<Rightarrow> (Inl e, w1)
                    | Inr pkgResponse \<Rightarrow>
                        (case response_data pkgResponse of
                           None \<Rightarrow> (Inl (TypeError ''Cannot read properties of undefined''), w1)
                         | Some d \<Rightarrow>
                             (Inr \<lparr>name = response_name pkgResponse,
                                   display_name = response_display_name pkgResponse,
                                   repository = response_repository pkgResponse,
                                   version = response_version pkgResponse,
                                   archiveURL = map_of d ''headlamp/plugin/archive-url'',
                                   archiveChecksum = map_of d ''headlamp/plugin/archive-checksum'',
                                   distroCompat = map_of d ''headlamp/plugin/distro-compat'',
                                   versionCompat = map_of d ''headlamp/plugin/version-compat''\<rparr>,
                              w1))))
      | other \<Rightarrow> (Inl (TypeError ''URL.startsWith is not a function''), w))"

definition fetchPluginInfo ::
  "platform \<Rightarrow> jsval \<Rightarrow> bool \<Rightarrow> AbortSignal option \<Rightarrow> world \<Rightarrow>
     (error + ArtifactHubHeadlampPkg) \<times> world" where
  \<comment> \<open>the \<open>catch\<close> reports to the callback, if there is one, and throws in any case\<close>
  "fetchPluginInfo env URL cb signal w =
     (case fetchPluginInfo_try env URL cb signal w of
        (Inl e, w1) \<Rightarrow> (Inl e, emit cb (failure e) w1)
      | (Inr pkg, w1) \<Rightarrow> (Inr pkg, w1))"

subsection \<open>\<open>downloadExtractArchive\<close>\<close>

definition strip_algorithm :: "string \<Rightarrow> string" where
  \<comment> \<open>lines 426 to 429\<close>
  "strip_algorithm checksum =
     (if startsWith checksum ''sha256:'' \<or> startsWith checksum ''SHA256:''
      then replace (replace checksum ''sha256:'' []) ''SHA256:'' []
      else checksum)"

definition extract_into :: "platform \<Rightarrow> bytes \<Rightarrow> path \<Rightarrow> world \<Rightarrow> (error + unit) \<times> world" where
  \<comment> \<open>the gunzip and \<open>tar.extract({ cwd, strip: 1 })\<close> pipeline and the
      promise that waits for it: the entries are written into the directory \<open>dir\<close>, and
      an error of the \<open>tar\<close> stream rejects the promise\<close>
  "extract_into env archBuffer dir w =
     (case lookup (fs w) dir of
        None \<Rightarrow> (Inl (SystemError ''ENOENT''), w\<lparr>log := log w @ [Extract archBuffer dir]\<rparr>)
      | Some (File s) \<Rightarrow> (Inl (SystemError ''ENOTDIR''), w\<lparr>log := log w @ [Extract archBuffer dir]\<rparr>)
      | Some (Dir ds) \<Rightarrow>
          (case cp_entries (os_refuses env) dir (fst (untar env archBuffer)) ds of
             (ds', Some e) \<Rightarrow>
               (Inl e, \<lparr>fs = alter_fs dir (\<lambda>old. Some (Dir ds')) (fs w),
                        log = log w @ [Extract archBuffer dir]\<rparr>)
           | (ds', None) \<Rightarrow>
               (case snd (untar env archBuffer) of
                  Some e \<Rightarrow>
                    (Inl e, \<lparr>fs = alter_fs dir (\<lambda>old. Some (Dir ds')) (fs w),
                             log = log w @ [Extract archBuffer dir]\<rparr>)
                | None \<Rightarrow>
                    (Inr (), \<lparr>fs = alter_fs dir (\<lambda>old. Some (Dir ds')) (fs w),
                              log = log w @ [Extract archBuffer dir]\<rparr>))))"

definition stamp_manifest ::
  "platform \<Rightarrow> ArtifactHubHeadlampPkg \<Rightarrow> path \<Rightarrow> world \<Rightarrow> (error + unit) \<times> world" where
  \<comment> \<open>lines 529 to 540: the provenance record and the managed flag are written into
      the manifest at \<open>manifest\<close>\<close>
  "stamp_manifest env pluginInfo manifest w =
     (case parse_file env (fs w) manifest of
        Inl e \<Rightarrow> (Inl e, w)
      | Inr packageJSON \<Rightarrow>
          (case setprop packageJSON ''artifacthub''
                  (Obj [(''name'', Str (name pluginInfo)),
                        (''title'', Str (display_name pluginInfo)),
                        (''url'', Str (''https://artifacthub.io/packages/headlamp/'' @
                                       repository_name (repository pluginInfo) @ ''/'' @
                                       name pluginInfo)),
                        (''version'', Str (version pluginInfo)),
                        (''repoName'', Str (repository_name (repository pluginInfo))),
                        (''author'', Str (user_alias (repository pluginInfo)))]) of
             Inl e \<Rightarrow> (Inl e, w)
           | Inr stamped \<Rightarrow>
               (case setprop stamped ''isManagedByHeadlampPlugin'' (Bool True) of
                  Inl e \<Rightarrow> (Inl e, w)
                | Inr managed \<Rightarrow>
                    on_fs (writeFileSync (os_refuses env) manifest (JSON_stringify env managed)) w)))"


definition extract_stage ::
  "platform \<Rightarrow> ArtifactHubHeadlampPkg \<Rightarrow> bytes \<Rightarrow> path option \<Rightarrow> bool \<Rightarrow> AbortSignal option \<Rightarrow>
     world \<Rightarrow> (error + string \<times> path option) \<times> world" where
  \<comment> \<open>lines 495 to 541. \<open>tempFolder\<close> is \<open>None\<close> for the empty string, with which the
      extractor works in the current directory and \<open>`${tempFolder}/package.json`\<close> is
      a file of the root\<close>
  "extract_stage env pluginInfo archBuffer tempFolder cb signal w =
     (if aborted signal 4 then (Inl (Error ''Download cancelled''), w)
      else
        (case extract_into env archBuffer (case tempFolder of None \<Rightarrow> cwd env | Some d \<Rightarrow> d)
                (emit cb (info ''Extracting Plugin'') w) of
           (Inl e, w1) \<Rightarrow> (Inl e, w1)
         | (Inr u, w1) \<Rightarrow>
             if aborted signal 5 then (Inl (Error ''Download cancelled''), w1)
             else
               (case stamp_manifest env pluginInfo
                       (case tempFolder of None \<Rightarrow> [''package.json'']
                                         | Some d \<Rightarrow> d @ [''package.json''])
                       (emit cb (info ''Plugin Extracted'') w1) of
                  (Inl e, w2) \<Rightarrow> (Inl e, w2)
                | (Inr v, w2) \<Rightarrow> (Inr (name pluginInfo, tempFolder), w2))))"

definition download_stage ::
  "platform \<Rightarrow> ArtifactHubHeadlampPkg \<Rightarrow> string \<Rightarrow> string \<Rightarrow> bool \<Rightarrow> AbortSignal option \<Rightarrow>
     world \<Rightarrow> (error + string \<times> path option) \<times> world" where
  \<comment> \<open>lines 445 to 493, then the extraction; \<open>checksum\<close> is the declared checksum
      with its algorithm prefix stripped\<close>
  "download_stage env pluginInfo url checksum cb signal w =
     (if aborted signal 1 then (Inl (Error ''Download cancelled''), w)
      else
        (case on_fs (mkdtempSync (os_refuses env) (tmpdir env) ''headlamp-plugin-temp-''
                       (mkdtemp_suffix env)) w of
           (Inl e, w1) \<Rightarrow> (Inl e, w1)
         | (Inr tempDir, w1) \<Rightarrow>
             (case on_fs (mkdirSync (os_refuses env) (path_join tempDir (name pluginInfo))) w1 of
                (Inl e, w2) \<Rightarrow> (Inl e, w2)
              | (Inr tempFolder, w2) \<Rightarrow>
                  if aborted signal 2
                  then (Inl (Error ''Download cancelled''), emit cb (info ''Downloading Plugin'') w2)
                  else
                    (case fetch (downloads env) url (aborted signal 2)
                            (emit cb (info ''Downloading Plugin'') w2) of
                       (Rejected e, w3) \<Rightarrow> (Inl e, w3)
                     | (Response ok status body, w3) \<Rightarrow>
                         if \<not> ok
                         then (Inl (Error (''Failed to download tarball. Status code: '' @
                                           decimal status)), w3)
                         else if aborted signal 3 then (Inl (Error ''Download cancelled''), w3)
                         else
                           (case body of
                              None \<Rightarrow>
                                (Inl (Error ''Download empty''),
                                 emit cb (info ''Plugin Downloaded'') w3)
                            | Some (archChunks, ended) \<Rightarrow>
                                (case ended of
                                   Some e \<Rightarrow> (Inl e, emit cb (info ''Plugin Downloaded'') w3)
                                 | None \<Rightarrow>
                                     if sha256_hex (concat archChunks) \<noteq> checksum
                                     then (Inl (Error ''Checksum mismatch.''),
                                           emit cb (info ''Plugin Downloaded'') w3)
                                     else extract_stage env pluginInfo (concat archChunks)
                                            tempFolder cb signal
                                            (emit cb (info ''Plugin Downloaded'') w3)))))))"

definition downloadExtractArchive ::
  "platform \<Rightarrow> ArtifactHubHeadlampPkg option \<Rightarrow> string \<Rightarrow> bool \<Rightarrow> AbortSignal option \<Rightarrow>
     world \<Rightarrow> (error + string \<times> path option) \<times> world" where
  \<comment> \<open>lines 407 to 443, then the download; \<open>pluginInfo\<close> is \<open>None\<close> for \<open>undefined\<close>.
      The signal is read at instants 0 to 5, one for each of the six checks.\<close>
  "downloadExtractArchive env pluginInfo headlampVersion cb signal w =
     (if aborted signal 0 then (Inl (Error ''Download cancelled''), w)
      else
        (case pluginInfo of
           None \<Rightarrow> (Inl (TypeError ''Cannot read properties of undefined''), w)
         | Some pkg \<Rightarrow>
             if \<not> validatePluginName (name pkg) then (Inl (Error ''Invalid plugin name''), w)
             else
               (case archiveURL pkg of
                  None \<Rightarrow> (Inl (TypeError ''Cannot read properties of undefined''), w)
                | Some url \<Rightarrow>
                    if \<not> validateArchiveURL url
                    then (Inl (Error (''Invalid plugin/archive-url:'' @ url)), w)
                    else
                      (case archiveChecksum pkg of
                         None \<Rightarrow>
                           (Inl (Error ''Invalid plugin metadata. Please check the plugin details.''), w)
                       | Some declared \<Rightarrow>
                           if url = [] \<or> declared = []
                           then (Inl (Error ''Invalid plugin metadata. Please check the plugin details.''), w)
                           else if headlampVersion = []
                           then download_stage env pkg url (strip_algorithm declared) cb signal w
                           else if semver_satisfies env headlampVersion (versionCompat pkg)
                           then download_stage env pkg url (strip_algorithm declared) cb signal
                                  (emit cb (info ''Headlamp version is compatible'')
                                     (emit cb (info ''Checking compatibility with Headlamp version'') w))
                           else (Inl (Error ''Headlamp version is not compatible with the plugin''),
                                 emit cb (info ''Checking compatibility with Headlamp version'') w)))))"

subsection \<open>\<open>install\<close>, \<open>update\<close> and \<open>uninstall\<close>\<close>

definition catch_report :: "bool \<Rightarrow> (error + unit) \<times> world \<Rightarrow> (error + unit) \<times> world" where
  \<comment> \<open>\<open>catch (e) { if (progressCallback) { progressCallback({ type: 'error', message:
      e.message }); } else { throw e; } }\<close>\<close>
  "catch_report cb outcome =
     (case outcome of
        (Inl e, w) \<Rightarrow> if cb then (Inr (), emit cb (failure e) w) else (Inl e, w)
      | (Inr u, w) \<Rightarrow> (Inr u, w))"

definition ensure_dir :: "platform \<Rightarrow> path \<Rightarrow> world \<Rightarrow> (error + unit) \<times> world" where
  \<comment> \<open>\<open>if (!fs.existsSync(d)) { fs.mkdirSync(d, { recursive: true }); }\<close>\<close>
  "ensure_dir env d w =
     (if existsSync (fs w) d then (Inr (), w)
      else (case on_fs (mkdirSync (os_refuses env) d) w of
              (Inl e, w1) \<Rightarrow> (Inl e, w1)
            | (Inr made, w1) \<Rightarrow> (Inr (), w1)))"

definition move_temp :: "platform \<Rightarrow> path option \<Rightarrow> path \<Rightarrow> world \<Rightarrow> (error + unit) \<times> world" where
  \<comment> \<open>\<open>moveDirs(tempFolder, target)\<close>; with the empty string for \<open>tempFolder\<close> the copy
      finds no source\<close>
  "move_temp env tempFolder target w =
     (case tempFolder of
        None \<Rightarrow> (Inl (SystemError ''ENOENT''), w)
      | Some t \<Rightarrow> on_fs (moveDirs env t target) w)"

definition installFromPluginPkg ::
  "platform \<Rightarrow> ArtifactHubHeadlampPkg option \<Rightarrow> path \<Rightarrow> string \<Rightarrow> bool \<Rightarrow> AbortSignal option \<Rightarrow>
     world \<Rightarrow> (error + unit) \<times> world" where
  "installFromPluginPkg env pluginData destinationFolder headlampVersion cb signal w =
     catch_report cb
       (case downloadExtractArchive env pluginData headlampVersion cb signal w of
          (Inl e, w1) \<Rightarrow> (Inl e, w1)
        | (Inr (nm, tempFolder), w1) \<Rightarrow>
            (case ensure_dir env destinationFolder w1 of
               (Inl e, w2) \<Rightarrow> (Inl e, w2)
             | (Inr u, w2) \<Rightarrow>
                 (case move_temp env tempFolder (path_join destinationFolder nm) w2 of
                    (Inl e, w3) \<Rightarrow> (Inl e, w3)
                  | (Inr v, w3) \<Rightarrow> (Inr (), emit cb (success ''Plugin Installed'') w3))))"

definition install ::
  "platform \<Rightarrow> jsval \<Rightarrow> path \<Rightarrow> string \<Rightarrow> bool \<Rightarrow> AbortSignal option \<Rightarrow> world \<Rightarrow>
     (error + unit) \<times> world" where
  \<comment> \<open>after its \<open>catch\<close> has reported to the callback, \<open>install\<close> goes on to
      \<open>installFromPluginPkg\<close> with \<open>pluginInfo\<close> still \<open>undefined\<close>\<close>
  "install env URL destinationFolder headlampVersion cb signal w =
     (case fetchPluginInfo env URL cb signal w of
        (Inr pluginInfo, w1) \<Rightarrow>
          installFromPluginPkg env (Some pluginInfo) destinationFolder headlampVersion cb
            (later 1 signal) w1
      | (Inl e, w1) \<Rightarrow>
          if cb
          then installFromPluginPkg env None destinationFolder headlampVersion cb
                 (later 1 signal) (emit cb (failure e) w1)
          else (Inl e, w1))"


definition semver_lte_js :: "platform \<Rightarrow> string \<Rightarrow> jsval \<Rightarrow> error + bool" where
  \<comment> \<open>\<open>semver.lte(latestVersion, currentVersion)\<close>: a version that is no string, or no
      version, is a \<open>TypeError\<close>\<close>
  "semver_lte_js env latestVersion currentVersion =
     (case currentVersion of
        Str current \<Rightarrow>
          (case semver_lte env latestVersion current of
             None \<Rightarrow> Inl (TypeError ''Invalid Version'')
           | Some b \<Rightarrow> Inr b)
      | other \<Rightarrow> Inl (TypeError ''Invalid Version''))"

definition find_plugin :: "string \<Rightarrow> PluginData list \<Rightarrow> PluginData option" where
  \<comment> \<open>\<open>installedPlugins.find(p => p.pluginName === pluginName)\<close>\<close>
  "find_plugin nm installedPlugins = find (\<lambda>p. pluginName p = Str nm) installedPlugins"

definition replace_plugin ::
  "platform \<Rightarrow> ArtifactHubHeadlampPkg \<Rightarrow> path \<Rightarrow> path \<Rightarrow> string \<Rightarrow> bool \<Rightarrow> AbortSignal option \<Rightarrow>
     world \<Rightarrow> (error + unit) \<times> world" where
  \<comment> \<open>lines 210 to 234 of \<open>update\<close>\<close>
  "replace_plugin env pluginData pluginDir destinationFolder headlampVersion cb signal w =
     (case downloadExtractArchive env (Some pluginData) headlampVersion cb signal w of
        (Inl e, w1) \<Rightarrow> (Inl e, w1)
      | (Inr (nm, tempFolder), w1) \<Rightarrow>
          (case ensure_dir env destinationFolder w1 of
             (Inl e, w2) \<Rightarrow> (Inl e, w2)
           | (Inr u, w2) \<Rightarrow>
               (case on_fs (rmdirSync (os_refuses env) pluginDir) w2 of
                  (Inl e, w3) \<Rightarrow> (Inl e, w3)
                | (Inr v, w3) \<Rightarrow>
                    (case on_fs (mkdirSync (os_refuses env) pluginDir) w3 of
                       (Inl e, w4) \<Rightarrow> (Inl e, w4)
                     | (Inr made, w4) \<Rightarrow>
                         (case move_temp env tempFolder pluginDir w4 of
                            (Inl e, w5) \<Rightarrow> (Inl e, w5)
                          | (Inr x, w5) \<Rightarrow>
                              (Inr (), emit cb (success ''Plugin Updated'') w5))))))"

definition update ::
  "platform \<Rightarrow> string \<Rightarrow> path \<Rightarrow> string \<Rightarrow> bool \<Rightarrow> AbortSignal option \<Rightarrow> world \<Rightarrow>
     (error + unit) \<times> world" where
  "update env nm destinationFolder headlampVersion cb signal w =
     catch_report cb
       (case list_dir env destinationFolder False w of
          (Inl e, w0) \<Rightarrow> (Inl e, w0)
        | (Inr None, w0) \<Rightarrow> (Inl (Error ''InstalledPlugins not found''), w0)
        | (Inr (Some installedPlugins), w0) \<Rightarrow>
            (case find_plugin nm installedPlugins of
               None \<Rightarrow> (Inl (Error ''Plugin not found''), w0)
             | Some plugin \<Rightarrow>
                 (case parse_file env (fs w0)
                         (destinationFolder @ [folderName plugin] @ [''package.json'']) of
                    Inl e \<Rightarrow> (Inl e, w0)
                  | Inr packageJson \<Rightarrow>
                      (case fetchPluginInfo env (artifacthubURL plugin) cb signal w0 of
                         (Inl e, w1) \<Rightarrow> (Inl e, w1)
                       | (Inr pluginData, w1) \<Rightarrow>
                           (case getprop packageJson ''artifacthub'' of
                              Inl e \<Rightarrow> (Inl e, w1)
                            | Inr hub \<Rightarrow>
                                (case getprop hub ''version'' of
                                   Inl e \<Rightarrow> (Inl e, w1)
                                 | Inr currentVersion \<Rightarrow>
                                     (case semver_lte_js env (version pluginData) currentVersion of
                                        Inl e \<Rightarrow> (Inl e, w1)
                                      | Inr no_newer \<Rightarrow>
                                          if no_newer
                                          then (Inl (Error ''No updates available''), w1)
                                          else replace_plugin env pluginData
                                                 (destinationFolder @ [folderName plugin])
                                                 destinationFolder headlampVersion cb
                                                 (later 1 signal) w1)))))))"

definition uninstall ::
  "platform \<Rightarrow> string \<Rightarrow> path \<Rightarrow> bool \<Rightarrow> world \<Rightarrow> (error + unit) \<times> world" where
  "uninstall env nm folder cb w =
     catch_report cb
       (case list_dir env folder False w of
          (Inl e, w0) \<Rightarrow> (Inl e, w0)
        | (Inr None, w0) \<Rightarrow> (Inl (Error ''InstalledPlugins not found''), w0)
        | (Inr (Some installedPlugins), w0) \<Rightarrow>
            (case find_plugin nm installedPlugins of
               None \<Rightarrow> (Inl (Error ''Plugin not found''), w0)
             | Some plugin \<Rightarrow>
                 (case checkValidPluginFolder env (fs w0) (folder @ [folderName plugin]) of
                    Inl e \<Rightarrow> (Inl e, w0)
                  | Inr valid \<Rightarrow>
                      if \<not> valid then (Inl (Error ''Invalid plugin folder''), w0)
                      else if existsSync (fs w0) (folder @ [folderName plugin])
                      then
                        (case on_fs (rmdirSync (os_refuses env) (folder @ [folderName plugin])) w0 of
                           (Inl e, w1) \<Rightarrow> (Inl e, w1)
                         | (Inr u, w1) \<Rightarrow> (Inr (), emit cb (success ''Plugin Uninstalled'') w1))
                      else (Inl (Error ''Plugin not found''), w0))))"

section \<open>The languages of the regular expressions\<close>

inductive_set star :: "string set \<Rightarrow> string set" for L :: "string set" where
  star_nil: "[] \<in> star L"
| star_step: "u \<in> L \<Longrightarrow> v \<in> star L \<Longrightarrow> u @ v \<in> star L"

fun lang :: "rx \<Rightarrow> string set" where
  "lang Void = {}"
| "lang Empty = {[]}"
| "lang (Sym k) = {w. \<exists>c. w = [c] \<and> accepts k c}"
| "lang (Cat a b) = {w. \<exists>u v. w = u @ v \<and> u \<in> lang a \<and> v \<in> lang b}"
| "lang (Alt a b) = lang a \<union> lang b"
| "lang (Star a) = star (lang a)"


section \<open>What the specification says of the validators\<close>

text \<open>
  The names the specification wants rejected: those with a path separator or a
  parent-directory segment.
\<close>

definition has_separator_or_dotdot :: "string \<Rightarrow> bool" where
  "has_separator_or_dotdot nm =
     (CHR ''/'' \<in> set nm \<or> CHR 0x5C \<in> set nm \<or> (\<exists>u v. nm = u @ ''..'' @ v))"

text \<open>
  The allow-list in words: an address of one of three hosting providers,
  \<open>host/owner/repository/kind/rest\<close> with the kind of path each provider serves
  releases and archives under (the rest holds no line terminator), or an address under
  the pinned fixture prefix.
\<close>

definition hosted_archive :: "string \<Rightarrow> string \<Rightarrow> string \<Rightarrow> string \<Rightarrow> bool" where
  "hosted_archive host kind1 kind2 url =
     (\<exists>owner repo kind rest.
        url = host @ owner @ ''/'' @ repo @ ''/'' @ kind @ ''/'' @ rest \<and>
        owner \<noteq> [] \<and> CHR ''/'' \<notin> set owner \<and> repo \<noteq> [] \<and> CHR ''/'' \<notin> set repo \<and>
        (kind = kind1 \<or> kind = kind2) \<and> CHR 0x0A \<notin> set rest \<and> CHR 0x0D \<notin> set rest)"

definition on_allow_list :: "string \<Rightarrow> bool" where
  "on_allow_list url =
     (hosted_archive ''https://github.com/'' ''releases'' ''archive'' url \<or>
      hosted_archive ''https://bitbucket.org/'' ''downloads'' ''get'' url \<or>
      hosted_archive ''https://gitlab.com/'' ''-/archive'' ''releases'' url \<or>
      (\<exists>rest. url = ''https://github.com/yolossn/headlamp-plugins/'' @ rest))"

section \<open>Trees and paths, for the statements on moving and removing\<close>

definition separate :: "path \<Rightarrow> path \<Rightarrow> bool" where
  \<comment> \<open>neither path is the other or lies below it\<close>
  "separate p q = (\<not> (inside p q \<or> inside q p))"

fun wf_node :: "node \<Rightarrow> bool" where
  \<comment> \<open>no directory holds two entries of one name\<close>
  "wf_node (File s) = True"
| "wf_node (Dir es) = (distinct (map fst es) \<and> list_all (\<lambda>e. wf_node (snd e)) es)"

fun covers :: "node \<Rightarrow> node \<Rightarrow> bool" where
  \<comment> \<open>\<open>covers src d\<close>: \<open>d\<close> holds all of \<open>src\<close>, every file with its content\<close>
  "covers (File s) d = (d = File s)"
| "covers (Dir es) d =
     (case d of
        File t \<Rightarrow> False
      | Dir ds \<Rightarrow>
          list_all (\<lambda>e. case map_of ds (fst e) of None \<Rightarrow> False | Some m \<Rightarrow> covers (snd e) m) es)"

text \<open>Looking a path up in what may be no node at all.\<close>

fun lookup_opt :: "node option \<Rightarrow> path \<Rightarrow> node option" where
  "lookup_opt None p = None"
| "lookup_opt (Some n) p = lookup n p"

section \<open>What a run shows of itself\<close>

text \<open>The requests and the extractions of a log, in order.\<close>

fun request_urls :: "effect list \<Rightarrow> string list" where
  "request_urls [] = []"
| "request_urls (Request u # es) = u # request_urls es"
| "request_urls (e # es) = request_urls es"

fun extracted :: "effect list \<Rightarrow> (bytes \<times> path) list" where
  "extracted [] = []"
| "extracted (Extract b d # es) = (b, d) # extracted es"
| "extracted (e # es) = extracted es"

text \<open>
  The specification compares digests without regard to the case of the hexadecimal
  digits, that is, after this conversion.
\<close>

definition toLowerCase :: "string \<Rightarrow> string" where
  "toLowerCase s =
     map (\<lambda>c. case map_of (zip ''ABCDEFGHIJKLMNOPQRSTUVWXYZ'' ''abcdefghijklmnopqrstuvwxyz'') c of
                None \<Rightarrow> c | Some l \<Rightarrow> l) s"

section \<open>A worked example\<close>

text \<open>
  One installed plugin, \<open>flux\<close> at version 0.1.0, beside a directory with a manifest
  that is not managed and a directory that is no plugin at all; the registry offers
  version 0.2.0. The JSON functions, the \<open>semver\<close> functions and the servers are given
  on the texts, versions and addresses of the example.
\<close>

definition installed_manifest :: string where
  \<open>installed_manifest =
     ''{"name":"@headlamp-k8s/flux","version":"0.1.0","artifacthub":{"title":"Flux","url":"https://artifacthub.io/packages/headlamp/headlamp-plugins/flux","version":"0.1.0"},"isManagedByHeadlampPlugin":true}''\<close>

definition installed_json :: jsval where
  "installed_json =
     Obj [(''name'', Str ''@headlamp-k8s/flux''), (''version'', Str ''0.1.0''),
          (''artifacthub'',
             Obj [(''title'', Str ''Flux''),
                  (''url'', Str ''https://artifacthub.io/packages/headlamp/headlamp-plugins/flux''),
                  (''version'', Str ''0.1.0'')]),
          (''isManagedByHeadlampPlugin'', Bool True)]"

definition unmanaged_manifest :: string where
  \<open>unmanaged_manifest = ''{"name":"my-tool","version":"1.0.0"}''\<close>

definition unmanaged_json :: jsval where
  "unmanaged_json = Obj [(''name'', Str ''my-tool''), (''version'', Str ''1.0.0'')]"

definition archive_manifest :: string where
  \<open>archive_manifest = ''{"name":"@headlamp-k8s/flux","version":"0.2.0"}''\<close>

definition archive_json :: jsval where
  "archive_json = Obj [(''name'', Str ''@headlamp-k8s/flux''), (''version'', Str ''0.2.0'')]"

definition hand_made_manifest :: string where
  \<open>hand_made_manifest =
     ''{"name":"hand-made","artifacthub":{},"isManagedByHeadlampPlugin":"yes"}''\<close>

definition hand_made_json :: jsval where
  "hand_made_json =
     Obj [(''name'', Str ''hand-made''), (''artifacthub'', Obj []),
          (''isManagedByHeadlampPlugin'', Str ''yes'')]"

definition example_parse :: "string \<Rightarrow> jsval option" where
  \<comment> \<open>any other text of the example is not JSON\<close>
  "example_parse =
     map_of [(installed_manifest, installed_json), (unmanaged_manifest, unmanaged_json),
             (archive_manifest, archive_json), (hand_made_manifest, hand_made_json)]"

definition example_archive :: bytes where
  "example_archive = [0x1f, 0x8b, 0x08]"

definition example_archive_url :: string where
  "example_archive_url =
     ''https://github.com/headlamp-k8s/plugins/releases/download/flux-0.2.0/flux-0.2.0.tar.gz''"

definition example_repository :: Repository where
  "example_repository = \<lparr>repository_name = ''headlamp-plugins'', user_alias = ''headlamp''\<rparr>"

definition example_pkg :: ArtifactHubHeadlampPkg where
  "example_pkg =
     \<lparr>name = ''flux'', display_name = ''Flux'', repository = example_repository,
      version = ''0.2.0'',
      archiveURL = Some example_archive_url,
      archiveChecksum =
        Some ''sha256:baa89858c7e545390273530ba63c61b94c2e09d38c28b0a0311bfa7bde396181'',
      distroCompat = Some ''in-cluster'', versionCompat = Some ''>=0.22''\<rparr>"

definition example_response :: PkgResponse where
  "example_response =
     \<lparr>response_name = ''flux'', response_display_name = ''Flux'',
      response_version = ''0.1.0'', response_repository = example_repository,
      response_data =
        Some [(''headlamp/plugin/archive-url'', example_archive_url),
              (''headlamp/plugin/archive-checksum'',
                 ''sha256:baa89858c7e545390273530ba63c61b94c2e09d38c28b0a0311bfa7bde396181''),
              (''headlamp/plugin/distro-compat'', ''in-cluster''),
              (''headlamp/plugin/version-compat'', ''>=0.22'')]\<rparr>"

definition example_platform :: platform where
  "example_platform =
     \<lparr>JSON_parse = example_parse,
      JSON_stringify = (\<lambda>v. ''{}''),
      semver_lte = (\<lambda>a b. map_of [((''0.1.0'', ''0.1.0''), True), ((''0.2.0'', ''0.1.0''), False)] (a, b)),
      semver_satisfies = (\<lambda>v range. True),
      registry =
        (\<lambda>url. if url = ''https://artifacthub.io/api/v1/packages/headlamp/headlamp-plugins/flux''
               then Response True 200 (Inr example_response)
               else Response False 404 (Inl (SyntaxError ''Unexpected end of JSON input''))),
      downloads =
        (\<lambda>url. if url = example_archive_url then Response True 200 (Some ([example_archive], None))
               else Response False 404 None),
      untar = (\<lambda>archive. ([(''main.js'', File ''registerPlugin()''),
                             (''package.json'', File archive_manifest)], None)),
      tmpdir = [''tmp''],
      cwd = [''home''],
      mkdtemp_suffix = ''Ab3xZ9'',
      os_refuses = (\<lambda>p. False)\<rparr>"

definition example_files :: node where
  "example_files =
     Dir [(''tmp'', Dir []),
          (''home'', Dir []),
          (''plugins'',
             Dir [(''flux'', Dir [(''main.js'', File ''registerPlugin()''),
                                  (''package.json'', File installed_manifest)]),
                  (''my-tool'', Dir [(''main.js'', File ''run()''),
                                     (''package.json'', File unmanaged_manifest)]),
                  (''notes'', Dir [(''todo.txt'', File ''water the plants'')])])]"

definition example_world :: world where
  "example_world = \<lparr>fs = example_files, log = []\<rparr>"

text \<open>The entry of the installed plugin in the list.\<close>

definition installed_plugin :: PluginData where
  "installed_plugin =
     \<lparr>pluginName = Str ''@headlamp-k8s/flux'', pluginTitle = Str ''Flux'',
      pluginVersion = Str ''0.1.0'', folderName = ''flux'',
      artifacthubURL = Str ''https://artifacthub.io/packages/headlamp/headlamp-plugins/flux'',
      repoName = Undefined, author = Undefined, artifacthubVersion = Str ''0.1.0''\<rparr>"

text \<open>The same platform, with a registry that offers version 0.2.0.\<close>

definition newer_platform :: platform where
  "newer_platform =
     example_platform\<lparr>registry :=
       (\<lambda>url. Response True 200 (Inr (example_response\<lparr>response_version := ''0.2.0''\<rparr>)))\<rparr>"

text \<open>
  An unpacked plugin in a staging directory, to be moved into the plugins directory;
  and a platform on which one of its files cannot be removed.
\<close>

definition staged_plugin :: node where
  "staged_plugin =
     Dir [(''main.js'', File ''registerPlugin()''), (''package.json'', File archive_manifest)]"

definition staging_files :: node where
  "staging_files = Dir [(''tmp'', Dir [(''staging'', staged_plugin)]), (''plugins'', Dir [])]"

definition locked_platform :: platform where
  "locked_platform =
     example_platform\<lparr>os_refuses := (\<lambda>p. p = [''tmp'', ''staging'', ''package.json''])\<rparr>"


text \<open>
  A plugins directory with the installed plugin and a project folder of the user's,
  whose \<open>package.json\<close> is still a note to self.
\<close>

definition foreign_files :: node where
  "foreign_files =
     Dir [(''plugins'',
             Dir [(''flux'', Dir [(''main.js'', File ''registerPlugin()''),
                                  (''package.json'', File installed_manifest)]),
                  (''draft'', Dir [(''main.js'', File ''run()''),
                                   (''package.json'', File ''TODO: write the manifest'')])])]"

definition foreign_world :: world where
  "foreign_world = \<lparr>fs = foreign_files, log = []\<rparr>"





section \<open>Regular expressions: the matcher decides the language\<close>

lemma nullable_lang: "nullable r \<longleftrightarrow> [] \<in> lang r"
  by (induction r) (simp_all add: star_nil)

lemma star_cons_split:
  assumes "x \<in> star L" and "x = c # w"
  shows "\<exists>u v. w = u @ v \<and> c # u \<in> L \<and> v \<in> star L"
  using assms
proof (induction arbitrary: w rule: star.induct)
  case star_nil
  then show ?case by simp
next
  case (star_step u v)
  show ?case
  proof (cases u)
    case Nil
    with star_step show ?thesis by simp
  next
    case (Cons a u')
    with star_step.prems have "a = c" and "w = u' @ v" by simp_all
    with Cons star_step.hyps show ?thesis by blast
  qed
qed

lemma star_cons_join: "c # u \<in> L \<Longrightarrow> v \<in> star L \<Longrightarrow> c # u @ v \<in> star L"
  using star_step [of "c # u" L v] by simp

lemma cons_in_Cat:
  "c # w \<in> lang (Cat a b) \<longleftrightarrow>
     (\<exists>u v. w = u @ v \<and> c # u \<in> lang a \<and> v \<in> lang b) \<or> ([] \<in> lang a \<and> c # w \<in> lang b)"
proof
  assume "c # w \<in> lang (Cat a b)"
  then obtain u v where uv: "c # w = u @ v" "u \<in> lang a" "v \<in> lang b" by auto
  show "(\<exists>u v. w = u @ v \<and> c # u \<in> lang a \<and> v \<in> lang b) \<or> ([] \<in> lang a \<and> c # w \<in> lang b)"
  proof (cases u)
    case Nil
    with uv show ?thesis by simp
  next
    case (Cons x u')
    with uv have "w = u' @ v" "c # u' \<in> lang a" by simp_all
    with uv show ?thesis by blast
  qed
next
  assume "(\<exists>u v. w = u @ v \<and> c # u \<in> lang a \<and> v \<in> lang b) \<or> ([] \<in> lang a \<and> c # w \<in> lang b)"
  then show "c # w \<in> lang (Cat a b)"
  proof
    assume "\<exists>u v. w = u @ v \<and> c # u \<in> lang a \<and> v \<in> lang b"
    then obtain u v where "w = u @ v" "c # u \<in> lang a" "v \<in> lang b" by blast
    then have "c # w = (c # u) @ v \<and> c # u \<in> lang a \<and> v \<in> lang b" by simp
    then show ?thesis unfolding lang.simps by blast
  next
    assume "[] \<in> lang a \<and> c # w \<in> lang b"
    then have "c # w = [] @ (c # w) \<and> [] \<in> lang a \<and> c # w \<in> lang b" by simp
    then show ?thesis unfolding lang.simps by blast
  qed
qed

lemma deriv_lang: "w \<in> lang (deriv c r) \<longleftrightarrow> c # w \<in> lang r"
proof (induction r arbitrary: w)
  case Void
  show ?case by simp
next
  case Empty
  show ?case by simp
next
  case (Sym k)
  show ?case by simp
next
  case (Alt a b)
  then show ?case by simp
next
  case (Cat a b)
  have "w \<in> lang (deriv c (Cat a b)) \<longleftrightarrow>
     (\<exists>u v. w = u @ v \<and> u \<in> lang (deriv c a) \<and> v \<in> lang b) \<or> (nullable a \<and> w \<in> lang (deriv c b))"
    by simp
  also have "\<dots> \<longleftrightarrow> c # w \<in> lang (Cat a b)"
    unfolding cons_in_Cat Cat.IH nullable_lang ..
  finally show ?case .
next
  case (Star a)
  show ?case
  proof
    assume "w \<in> lang (deriv c (Star a))"
    then obtain u v where "w = u @ v" "u \<in> lang (deriv c a)" "v \<in> star (lang a)" by auto
    then show "c # w \<in> lang (Star a)" using Star.IH star_cons_join by simp
  next
    assume "c # w \<in> lang (Star a)"
    then have "c # w \<in> star (lang a)" by simp
    from star_cons_split [OF this refl]
    obtain u v where "w = u @ v" "c # u \<in> lang a" "v \<in> star (lang a)" by blast
    then have "w = u @ v \<and> u \<in> lang (deriv c a) \<and> v \<in> star (lang a)" using Star.IH by simp
    then show "w \<in> lang (deriv c (Star a))" unfolding deriv.simps lang.simps by blast
  qed
qed

lemma matches_lang: "matches r s \<longleftrightarrow> s \<in> lang r"
  by (induction s arbitrary: r) (simp_all add: nullable_lang deriv_lang)


lemma lang_Lit: "lang (Lit s) = {s}"
  by (induction s) auto

lemma star_Sym: "w \<in> star (lang (Sym k)) \<longleftrightarrow> list_all (accepts k) w"
proof
  show "w \<in> star (lang (Sym k)) \<Longrightarrow> list_all (accepts k) w"
    by (induction rule: star.induct) auto
next
  show "list_all (accepts k) w \<Longrightarrow> w \<in> star (lang (Sym k))"
  proof (induction w)
    case Nil
    then show ?case by (simp add: star_nil)
  next
    case (Cons c w)
    then have "[c] \<in> lang (Sym k)" "w \<in> star (lang (Sym k))" by simp_all
    from star_step [OF this] show ?case by simp
  qed
qed


lemma cons_in_Sym: "c # u \<in> lang (Sym k) \<longleftrightarrow> u = [] \<and> accepts k c"
  by auto

lemma nil_in_Sym: "[] \<in> lang (Sym k) \<longleftrightarrow> False"
  by simp

lemma star_AnyChar: "star (lang AnyChar) = UNIV"
proof -
  have "w \<in> star (lang (Sym (Except [])))" for w
    unfolding star_Sym by (induction w) simp_all
  then show ?thesis unfolding AnyChar_def by blast
qed

lemma lang_Star_Dot: "w \<in> lang (Star Dot) \<longleftrightarrow> CHR 0x0A \<notin> set w \<and> CHR 0x0D \<notin> set w"
proof -
  have "list_all (accepts (Except [CHR 0x0A, CHR 0x0D])) w \<longleftrightarrow> CHR 0x0A \<notin> set w \<and> CHR 0x0D \<notin> set w"
    by (induction w) auto
  then show ?thesis unfolding Dot_def lang.simps(6) star_Sym .
qed

lemma lang_Plus_Sym: "w \<in> lang (Plus (Sym k)) \<longleftrightarrow> w \<noteq> [] \<and> list_all (accepts k) w"
proof (cases w)
  case Nil
  then show ?thesis by (simp add: Plus_def)
next
  case (Cons c v)
  have "c # v \<in> lang (Plus (Sym k)) \<longleftrightarrow> accepts k c \<and> v \<in> lang (Star (Sym k))"
    unfolding Plus_def cons_in_Cat cons_in_Sym nil_in_Sym by simp
  also have "\<dots> \<longleftrightarrow> accepts k c \<and> list_all (accepts k) v"
    unfolding lang.simps(6) star_Sym ..
  finally show ?thesis using Cons by simp
qed

lemma lang_segment: "w \<in> lang (Plus (Sym (Except ''/''))) \<longleftrightarrow> w \<noteq> [] \<and> CHR ''/'' \<notin> set w"
proof -
  have "list_all (accepts (Except ''/'')) w \<longleftrightarrow> CHR ''/'' \<notin> set w"
    by (induction w) auto
  then show ?thesis by (simp add: lang_Plus_Sym)
qed

lemma test_unanchored_iff:
  "test_unanchored r s \<longleftrightarrow> (\<exists>u x v. s = u @ x @ v \<and> x \<in> lang r)"
proof -
  have "test_unanchored r s \<longleftrightarrow> (\<exists>u v. s = u @ v \<and> (\<exists>x v'. v = x @ v' \<and> x \<in> lang r))"
    by (simp add: test_unanchored_def matches_lang star_AnyChar)
  also have "\<dots> \<longleftrightarrow> (\<exists>u x v. s = u @ x @ v \<and> x \<in> lang r)"
    by blast
  finally show ?thesis .
qed

lemma lang_invalidPattern:
  "x \<in> lang invalidPattern \<longleftrightarrow> x = ''/'' \<or> x = [CHR 0x5C] \<or> x = ''..''"
  by (auto simp: invalidPattern_def)

lemma validatePluginName_iff: "validatePluginName nm \<longleftrightarrow> \<not> has_separator_or_dotdot nm"
proof -
  have "test_unanchored invalidPattern nm \<longleftrightarrow>
      (\<exists>u v. nm = u @ ''/'' @ v) \<or> (\<exists>u v. nm = u @ [CHR 0x5C] @ v) \<or> (\<exists>u v. nm = u @ ''..'' @ v)"
    unfolding test_unanchored_iff lang_invalidPattern by blast
  also have "\<dots> \<longleftrightarrow> has_separator_or_dotdot nm"
    unfolding has_separator_or_dotdot_def by (simp add: in_set_conv_decomp)
  finally show ?thesis by (simp add: validatePluginName_def)
qed

lemma Cat_Lit: "w \<in> lang (Cat (Lit s) r) \<longleftrightarrow> (\<exists>v. w = s @ v \<and> v \<in> lang r)"
  by (simp add: lang_Lit)

lemma Cat_segment:
  "w \<in> lang (Cat (Plus (Sym (Except ''/''))) r) \<longleftrightarrow>
     (\<exists>u v. w = u @ v \<and> u \<noteq> [] \<and> CHR ''/'' \<notin> set u \<and> v \<in> lang r)"
proof -
  have "w \<in> lang (Cat (Plus (Sym (Except ''/''))) r) \<longleftrightarrow>
     (\<exists>u v. w = u @ v \<and> u \<in> lang (Plus (Sym (Except ''/''))) \<and> v \<in> lang r)"
    by simp
  then show ?thesis unfolding lang_segment by blast
qed

lemma Cat_kind:
  "w \<in> lang (Cat (Alt (Lit a) (Lit b)) r) \<longleftrightarrow>
     (\<exists>k v. w = k @ v \<and> (k = a \<or> k = b) \<and> v \<in> lang r)"
  by (auto simp: lang_Lit)

lemma repo_rx_lang:
  "w \<in> lang (Cat (Lit host)
            (Cat (Plus (Sym (Except ''/''))) (Cat (Lit ''/'')
            (Cat (Plus (Sym (Except ''/''))) (Cat (Lit ''/'')
            (Cat (Alt (Lit kind1) (Lit kind2)) (Cat (Lit ''/'') (Star Dot))))))))
   \<longleftrightarrow> hosted_archive host kind1 kind2 w"
  (is "?L \<longleftrightarrow> ?R")
proof
  assume ?L
  then obtain v1 where 1: "w = host @ v1"
    and "v1 \<in> lang (Cat (Plus (Sym (Except ''/''))) (Cat (Lit ''/'')
            (Cat (Plus (Sym (Except ''/''))) (Cat (Lit ''/'')
            (Cat (Alt (Lit kind1) (Lit kind2)) (Cat (Lit ''/'') (Star Dot)))))))"
    unfolding Cat_Lit [of w] by blast
  then obtain owner v2 where 2: "v1 = owner @ v2" "owner \<noteq> []" "CHR ''/'' \<notin> set owner"
    and "v2 \<in> lang (Cat (Lit ''/'')
            (Cat (Plus (Sym (Except ''/''))) (Cat (Lit ''/'')
            (Cat (Alt (Lit kind1) (Lit kind2)) (Cat (Lit ''/'') (Star Dot))))))"
    unfolding Cat_segment [of v1] by blast
  then obtain v3 where 3: "v2 = ''/'' @ v3"
    and "v3 \<in> lang (Cat (Plus (Sym (Except ''/''))) (Cat (Lit ''/'')
            (Cat (Alt (Lit kind1) (Lit kind2)) (Cat (Lit ''/'') (Star Dot)))))"
    unfolding Cat_Lit [of v2] by blast
  then obtain repo v4 where 4: "v3 = repo @ v4" "repo \<noteq> []" "CHR ''/'' \<notin> set repo"
    and "v4 \<in> lang (Cat (Lit ''/'')
            (Cat (Alt (Lit kind1) (Lit kind2)) (Cat (Lit ''/'') (Star Dot))))"
    unfolding Cat_segment [of v3] by blast
  then obtain v5 where 5: "v4 = ''/'' @ v5"
    and "v5 \<in> lang (Cat (Alt (Lit kind1) (Lit kind2)) (Cat (Lit ''/'') (Star Dot)))"
    unfolding Cat_Lit [of v4] by blast
  then obtain kind v6 where 6: "v5 = kind @ v6" "kind = kind1 \<or> kind = kind2"
    and "v6 \<in> lang (Cat (Lit ''/'') (Star Dot))"
    unfolding Cat_kind [of v5] by blast
  then obtain rest where 7: "v6 = ''/'' @ rest" "CHR 0x0A \<notin> set rest" "CHR 0x0D \<notin> set rest"
    unfolding Cat_Lit [of v6] lang_Star_Dot by blast
  have "w = host @ owner @ ''/'' @ repo @ ''/'' @ kind @ ''/'' @ rest"
    unfolding 1 2 3 4 5 6 7 ..
  with 2 4 6 7 show ?R unfolding hosted_archive_def by blast
next
  assume ?R
  then obtain owner repo kind rest where
    w: "w = host @ owner @ ''/'' @ repo @ ''/'' @ kind @ ''/'' @ rest"
    and o: "owner \<noteq> []" "CHR ''/'' \<notin> set owner"
    and r: "repo \<noteq> []" "CHR ''/'' \<notin> set repo"
    and k: "kind = kind1 \<or> kind = kind2"
    and t: "CHR 0x0A \<notin> set rest" "CHR 0x0D \<notin> set rest"
    unfolding hosted_archive_def by blast
  have 7: "''/'' @ rest \<in> lang (Cat (Lit ''/'') (Star Dot))"
    unfolding Cat_Lit lang_Star_Dot using t by blast
  have 6: "kind @ ''/'' @ rest \<in> lang (Cat (Alt (Lit kind1) (Lit kind2)) (Cat (Lit ''/'') (Star Dot)))"
    unfolding Cat_kind [of "kind @ ''/'' @ rest"] using k 7 by blast
  have 5: "''/'' @ kind @ ''/'' @ rest \<in> lang (Cat (Lit ''/'')
            (Cat (Alt (Lit kind1) (Lit kind2)) (Cat (Lit ''/'') (Star Dot))))"
    unfolding Cat_Lit [of "''/'' @ kind @ ''/'' @ rest"] using 6 by blast
  have 4: "repo @ ''/'' @ kind @ ''/'' @ rest \<in> lang (Cat (Plus (Sym (Except ''/''))) (Cat (Lit ''/'')
            (Cat (Alt (Lit kind1) (Lit kind2)) (Cat (Lit ''/'') (Star Dot)))))"
    unfolding Cat_segment [of "repo @ ''/'' @ kind @ ''/'' @ rest"] using r 5 by blast
  have 3: "''/'' @ repo @ ''/'' @ kind @ ''/'' @ rest \<in> lang (Cat (Lit ''/'')
            (Cat (Plus (Sym (Except ''/''))) (Cat (Lit ''/'')
            (Cat (Alt (Lit kind1) (Lit kind2)) (Cat (Lit ''/'') (Star Dot))))))"
    unfolding Cat_Lit [of "''/'' @ repo @ ''/'' @ kind @ ''/'' @ rest"] using 4 by blast
  have 2: "owner @ ''/'' @ repo @ ''/'' @ kind @ ''/'' @ rest \<in> lang
            (Cat (Plus (Sym (Except ''/''))) (Cat (Lit ''/'')
            (Cat (Plus (Sym (Except ''/''))) (Cat (Lit ''/'')
            (Cat (Alt (Lit kind1) (Lit kind2)) (Cat (Lit ''/'') (Star Dot)))))))"
    unfolding Cat_segment [of "owner @ ''/'' @ repo @ ''/'' @ kind @ ''/'' @ rest"] using o 3 by blast
  show ?L
    unfolding w Cat_Lit [of "host @ owner @ ''/'' @ repo @ ''/'' @ kind @ ''/'' @ rest"]
    using 2 by blast
qed

lemma startsWith_iff: "startsWith s p \<longleftrightarrow> (\<exists>rest. s = p @ rest)"
proof
  assume "startsWith s p"
  then have "s = p @ drop (length p) s"
    unfolding startsWith_def by (metis append_take_drop_id)
  then show "\<exists>rest. s = p @ rest" ..
next
  assume "\<exists>rest. s = p @ rest"
  then show "startsWith s p" by (auto simp: startsWith_def)
qed

lemma validateArchiveURL_iff: "validateArchiveURL url \<longleftrightarrow> on_allow_list url"
  unfolding validateArchiveURL_def on_allow_list_def matches_lang
    githubRegex_def bitbucketRegex_def gitlabRegex_def repo_rx_lang startsWith_iff ..


section \<open>Basic facts about the operations\<close>

lemma emit_False [simp]: "emit False resp w = w"
  by (simp add: emit_def)

lemma emit_True: "emit True resp w = w\<lparr>log := log w @ [Progress resp]\<rparr>"
  by (simp add: emit_def)

lemma fs_emit [simp]: "fs (emit cb resp w) = fs w"
  by (simp add: emit_def)

lemma log_emit: "log (emit cb resp w) = log w @ (if cb then [Progress resp] else [])"
  by (simp add: emit_def)

lemma extracted_append [simp]: "extracted (xs @ ys) = extracted xs @ extracted ys"
  by (induction xs rule: extracted.induct) simp_all

lemma extracted_emit [simp]: "extracted (log (emit cb resp w)) = extracted (log w)"
  by (simp add: log_emit)

lemma log_on_fs: "log (snd (on_fs call w)) = log w"
  by (simp add: on_fs_def split: prod.splits)

lemma log_stamp_manifest: "log (snd (stamp_manifest env pkg manifest w)) = log w"
  by (simp add: stamp_manifest_def log_on_fs split: sum.splits)

lemma log_extract_into:
  "log (snd (extract_into env b dir w)) = log w @ [Extract b dir]"
  by (simp add: extract_into_def split: option.splits node.splits prod.splits)

lemma extracted_extract_stage:
  "extracted (log (snd (extract_stage env pkg b tempFolder cb signal w))) =
     extracted (log w) @
       (if aborted signal 4 then []
        else [(b, case tempFolder of None \<Rightarrow> cwd env | Some d \<Rightarrow> d)])"
proof (cases "aborted signal 4")
  case True
  then show ?thesis by (simp add: extract_stage_def)
next
  case False
  obtain r w1 where x: "extract_into env b (case tempFolder of None \<Rightarrow> cwd env | Some d \<Rightarrow> d)
      (emit cb (info ''Extracting Plugin'') w) = (r, w1)"
    by (cases "extract_into env b (case tempFolder of None \<Rightarrow> cwd env | Some d \<Rightarrow> d)
      (emit cb (info ''Extracting Plugin'') w)")
  have l1: "extracted (log w1) = extracted (log w) @ [(b, case tempFolder of None \<Rightarrow> cwd env | Some d \<Rightarrow> d)]"
    using log_extract_into [of env b "case tempFolder of None \<Rightarrow> cwd env | Some d \<Rightarrow> d"
        "emit cb (info ''Extracting Plugin'') w"] x
    by simp
  obtain r2 w2 where s: "stamp_manifest env pkg
      (case tempFolder of None \<Rightarrow> [''package.json''] | Some d \<Rightarrow> d @ [''package.json''])
      (emit cb (info ''Plugin Extracted'') w1) = (r2, w2)"
    by (cases "stamp_manifest env pkg
      (case tempFolder of None \<Rightarrow> [''package.json''] | Some d \<Rightarrow> d @ [''package.json''])
      (emit cb (info ''Plugin Extracted'') w1)")
  have l2: "extracted (log w2) = extracted (log w1)"
    using log_stamp_manifest [of env pkg
        "case tempFolder of None \<Rightarrow> [''package.json''] | Some d \<Rightarrow> d @ [''package.json'']"
        "emit cb (info ''Plugin Extracted'') w1"] s
    by simp
  show ?thesis
    using False x s l1 l2 by (simp add: extract_stage_def split: sum.splits)
qed

lemma request_urls_append [simp]: "request_urls (xs @ ys) = request_urls xs @ request_urls ys"
  by (induction xs rule: request_urls.induct) simp_all

lemma lookup_append:
  "lookup n (p @ q) = (case lookup n p of None \<Rightarrow> None | Some m \<Rightarrow> lookup m q)"
  by (induction n p rule: lookup.induct) (auto split: option.splits)

lemma existsSync_parent: "existsSync files (p @ q) \<Longrightarrow> existsSync files p"
  by (auto simp: existsSync_def lookup_append split: option.splits)

lemma readFileSync_exists: "readFileSync files p = Inr text \<Longrightarrow> existsSync files p"
  by (auto simp: readFileSync_def existsSync_def split: option.splits node.splits)

lemma fs_catch_report: "fs (snd (catch_report cb outcome)) = fs (snd outcome)"
  by (cases outcome) (auto simp: catch_report_def split: sum.splits)

lemma fs_fetchPluginInfo_try: "fs (snd (fetchPluginInfo_try env URL cb signal w)) = fs w"
  by (cases URL)
    (auto simp: fetchPluginInfo_try_def fetch_def split: fetch_result.splits sum.splits option.splits)

lemma fs_fetchPluginInfo: "fetchPluginInfo env URL cb signal w = (r, w1) \<Longrightarrow> fs w1 = fs w"
  using fs_fetchPluginInfo_try [of env URL cb signal w]
  by (auto simp: fetchPluginInfo_def split: prod.splits sum.splits)

lemma list_dir_False:
  "list_dir env folder False w =
     (case list_plugins env (fs w) folder of
        Inl e \<Rightarrow> (Inl e, w) | Inr ps \<Rightarrow> (Inr (Some ps), w))"
  by (simp add: list_dir_def split: sum.splits)

section \<open>Facts about the file system\<close>

lemma inside_Nil [simp]: "inside [] q"
  by (simp add: inside_def)

lemma inside_Cons_Nil [simp]: "\<not> inside (c # p) []"
  by (simp add: inside_def)

lemma inside_Cons_Cons [simp]: "inside (c # p) (d # q) \<longleftrightarrow> c = d \<and> inside p q"
  by (auto simp: inside_def)

lemma separate_Cons_Cons: "separate (c # p) (d # q) \<longleftrightarrow> c \<noteq> d \<or> separate p q"
  by (auto simp: separate_def)

lemma separate_Nil [simp]: "\<not> separate [] q" "\<not> separate p []"
  by (simp_all add: separate_def)


lemma lookup_opt_Cons_None [simp]: "lookup_opt (map_of [] c) p = None"
  by simp

lemma lookup_Dir_Cons: "lookup (Dir es) (c # p) = lookup_opt (map_of es c) p"
  by (simp split: option.splits)

lemma case_lookup [simp]:
  "(case m of None \<Rightarrow> None | Some n \<Rightarrow> lookup n p) = lookup_opt m p"
  by (cases m) simp_all

lemma alter_frame:
  "separate p q \<Longrightarrow> lookup_opt (alter p f n) q = lookup_opt n q"
proof (induction p f n arbitrary: q rule: alter.induct)
  case (1 f n)
  then show ?case by simp
next
  case (2 c p f s)
  then show ?case by simp
next
  case (3 c p f es)
  from "3.prems" obtain d q' where q: "q = d # q'" by (cases q) auto
  show ?case
  proof (cases "d = c")
    case False
    then show ?thesis
      using q by (simp add: lookup_Dir_Cons update_conv' delete_conv' split: option.splits)
  next
    case True
    with "3.prems" q have "separate p q'" by (simp add: separate_Cons_Cons)
    from "3.IH" [OF this]
    have ih: "lookup_opt (alter p f (map_of es c)) q' = lookup_opt (map_of es c) q'" .
    show ?thesis
    proof (cases "alter p f (map_of es c)")
      case None
      with ih True q show ?thesis
        by (simp add: lookup_Dir_Cons delete_conv')
    next
      case (Some x)
      with ih True q show ?thesis
        by (simp add: lookup_Dir_Cons update_conv')
    qed
  qed
next
  case (4 c p f)
  from "4.prems" obtain d q' where q: "q = d # q'" by (cases q) auto
  show ?case
  proof (cases "d = c")
    case False
    then show ?thesis using q by (simp split: option.splits)
  next
    case True
    with "4.prems" q have "separate p q'" by (simp add: separate_Cons_Cons)
    from "4.IH" [OF this]
    have ih: "lookup_opt (alter p f None) q' = None" by simp
    show ?thesis
    proof (cases "alter p f None")
      case None
      then show ?thesis by simp
    next
      case (Some x)
      with ih True q show ?thesis by simp
    qed
  qed
qed

lemma lookup_opt_Nil [simp]: "lookup_opt n [] = n"
  by (cases n) simp_all

lemma alter_Some_Cons: "\<exists>x. alter (c # p) f (Some n) = Some x"
  by (cases n) (auto split: option.splits)

lemma alter_fs_frame: "separate p q \<Longrightarrow> lookup (alter_fs p f files) q = lookup files q"
proof -
  assume s: "separate p q"
  then obtain c p' where p: "p = c # p'" by (cases p) auto
  obtain x where x: "alter p f (Some files) = Some x"
    using alter_Some_Cons p by blast
  from alter_frame [OF s, of f "Some files"] x show ?thesis
    by (simp add: alter_fs_def)
qed

lemma alter_at:
  "\<not> (case n of None \<Rightarrow> False | Some m \<Rightarrow> file_above m p) \<Longrightarrow>
     lookup_opt (alter p f n) p = f (lookup_opt n p)"
proof (induction p f n rule: alter.induct)
  case (1 f n)
  then show ?case by simp
next
  case (2 c p f s)
  then show ?case by simp
next
  case (3 c p f es)
  then have ih: "lookup_opt (alter p f (map_of es c)) p = f (lookup_opt (map_of es c) p)"
    by (cases "map_of es c") simp_all
  show ?case
  proof (cases "alter p f (map_of es c)")
    case None
    with ih show ?thesis by (simp add: lookup_Dir_Cons delete_conv')
  next
    case (Some x)
    with ih show ?thesis by (simp add: lookup_Dir_Cons update_conv')
  qed
next
  case (4 c p f)
  then have ih: "lookup_opt (alter p f None) p = f None" by simp
  show ?case
  proof (cases "alter p f None")
    case None
    with ih show ?thesis by simp
  next
    case (Some x)
    with ih show ?thesis by simp
  qed
qed

lemma separate_siblings: "c \<noteq> d \<Longrightarrow> separate (folder @ [c]) (folder @ [d])"
  by (induction folder) (simp_all add: separate_Cons_Cons separate_def)

lemma fs_on_fs: "fs (snd (on_fs call w)) = snd (call (fs w))"
  by (simp add: on_fs_def split: prod.splits)

lemma rmSync_frame: "separate p q \<Longrightarrow> lookup (snd (rmSync refuses p files)) q = lookup files q"
  by (auto simp: rmSync_def alter_fs_frame split: option.splits prod.splits)

lemma rmdirSync_frame:
  "separate p q \<Longrightarrow> lookup (snd (rmdirSync refuses p files)) q = lookup files q"
  by (auto simp: rmdirSync_def rmSync_frame split: option.splits node.splits)

lemma read_plugin_folderName:
  "read_plugin env files folder entry_name = Inr entry \<Longrightarrow> folderName entry = entry_name"
  by (auto simp: read_plugin_def split: sum.splits)

lemma list_loop_valid:
  "list_loop env files folder entries acc = Inr ps \<Longrightarrow> p \<in> set ps \<Longrightarrow>
     p \<in> set acc \<or> checkValidPluginFolder env files (folder @ [folderName p]) = Inr True"
proof (induction entries arbitrary: acc)
  case Nil
  then show ?case by simp
next
  case (Cons e entries)
  show ?case
  proof (cases "checkValidPluginFolder env files (folder @ [fst e])")
    case (Inl err)
    with Cons.prems show ?thesis by simp
  next
    case (Inr valid)
    show ?thesis
    proof (cases valid)
      case False
      with Inr Cons show ?thesis by simp
    next
      case True
      show ?thesis
      proof (cases "read_plugin env files folder (fst e)")
        case (Inl err)
        with Inr True Cons.prems show ?thesis by simp
      next
        case r: (Inr entry)
        with Inr True Cons.prems
        have "list_loop env files folder entries (acc @ [entry]) = Inr ps" by simp
        from Cons.IH [OF this Cons.prems(2)]
        have "p \<in> set (acc @ [entry]) \<or>
            checkValidPluginFolder env files (folder @ [folderName p]) = Inr True" .
        moreover have "folderName entry = fst e"
          using r by (rule read_plugin_folderName)
        ultimately show ?thesis using Inr True by auto
      qed
    qed
  qed
qed

lemma listed_is_valid:
  "list_plugins env files folder = Inr ps \<Longrightarrow> p \<in> set ps \<Longrightarrow>
     checkValidPluginFolder env files (folder @ [folderName p]) = Inr True"
  using list_loop_valid [of env files folder _ "[]" ps p]
  by (auto simp: list_plugins_def split: sum.splits)

lemma found_is_listed: "find_plugin nm ps = Some p \<Longrightarrow> p \<in> set ps"
  by (auto simp: find_plugin_def find_Some_iff)

lemma uninstall_found:
  assumes "list_plugins env (fs w) folder = Inr ps" and "find_plugin nm ps = Some p"
  shows "uninstall env nm folder cb w =
     catch_report cb
       (case on_fs (rmdirSync (os_refuses env) (folder @ [folderName p])) w of
          (Inl e, w1) \<Rightarrow> (Inl e, w1)
        | (Inr u, w1) \<Rightarrow> (Inr (), emit cb (success ''Plugin Uninstalled'') w1))"
proof -
  have v: "checkValidPluginFolder env (fs w) (folder @ [folderName p]) = Inr True"
    using assms listed_is_valid found_is_listed by blast
  then have "existsSync (fs w) (folder @ [folderName p])"
    by (auto simp: checkValidPluginFolder_def split: if_splits)
  with v assms show ?thesis
    by (simp add: uninstall_def list_dir_False)
qed

lemma uninstall_not_found:
  assumes "list_plugins env (fs w) folder = Inr ps" and "find_plugin nm ps = None"
  shows "uninstall env nm folder cb w = catch_report cb (Inl (Error ''Plugin not found''), w)"
  using assms by (simp add: uninstall_def list_dir_False)

lemma uninstall_list_fails:
  assumes "list_plugins env (fs w) folder = Inl e"
  shows "uninstall env nm folder cb w = catch_report cb (Inl e, w)"
  using assms by (simp add: uninstall_def list_dir_False)

lemma read_plugin_name:
  "read_plugin env files folder d = Inr p \<Longrightarrow> listed_name env files folder d = Inr (pluginName p)"
  by (auto simp: read_plugin_def listed_name_def split: sum.splits)

lemma list_loop_read:
  "list_loop env files folder entries acc = Inr ps \<Longrightarrow> p \<in> set ps \<Longrightarrow>
     p \<in> set acc \<or> read_plugin env files folder (folderName p) = Inr p"
proof (induction entries arbitrary: acc)
  case Nil
  then show ?case by simp
next
  case (Cons e entries)
  show ?case
  proof (cases "checkValidPluginFolder env files (folder @ [fst e])")
    case (Inl err)
    with Cons.prems show ?thesis by simp
  next
    case (Inr valid)
    show ?thesis
    proof (cases valid)
      case False
      with Inr Cons show ?thesis by simp
    next
      case True
      show ?thesis
      proof (cases "read_plugin env files folder (fst e)")
        case (Inl err)
        with Inr True Cons.prems show ?thesis by simp
      next
        case r: (Inr entry)
        with Inr True Cons.prems
        have "list_loop env files folder entries (acc @ [entry]) = Inr ps" by simp
        from Cons.IH [OF this Cons.prems(2)]
        have "p \<in> set (acc @ [entry]) \<or> read_plugin env files folder (folderName p) = Inr p" .
        moreover have "folderName entry = fst e"
          using r by (rule read_plugin_folderName)
        ultimately show ?thesis using r by auto
      qed
    qed
  qed
qed

lemma listed_is_read:
  "list_plugins env files folder = Inr ps \<Longrightarrow> p \<in> set ps \<Longrightarrow>
     read_plugin env files folder (folderName p) = Inr p"
  using list_loop_read [of env files folder _ "[]" ps p]
  by (auto simp: list_plugins_def split: sum.splits)

lemma listed_name_of:
  "list_plugins env files folder = Inr ps \<Longrightarrow> p \<in> set ps \<Longrightarrow>
     listed_name env files folder (folderName p) = Inr (pluginName p)"
  using listed_is_read read_plugin_name by blast

lemma found_has_name: "find_plugin nm ps = Some p \<Longrightarrow> pluginName p = Str nm"
  by (auto simp: find_plugin_def find_Some_iff)

lemma no_valid_namesake_not_found:
  assumes l: "list_plugins env files folder = Inr ps"
    and n: "\<forall>d. listed_name env files folder d = Inr (Str nm) \<longrightarrow>
              checkValidPluginFolder env files (folder @ [d]) \<noteq> Inr True"
  shows "find_plugin nm ps = None"
proof (cases "find_plugin nm ps")
  case None
  then show ?thesis .
next
  case (Some p)
  then have m: "p \<in> set ps" and nm: "pluginName p = Str nm"
    using found_is_listed found_has_name by blast+
  from l m have "listed_name env files folder (folderName p) = Inr (Str nm)"
    using listed_name_of nm by metis
  moreover from l m have "checkValidPluginFolder env files (folder @ [folderName p]) = Inr True"
    by (rule listed_is_valid)
  ultimately show ?thesis using n by blast
qed

text \<open>Every directory that passes the check is read by the loop of \<open>list\<close>.\<close>

lemma list_loop_acc:
  "list_loop env files folder entries acc = Inr ps \<Longrightarrow> \<exists>rest. ps = acc @ rest"
proof (induction entries arbitrary: acc)
  case Nil
  then show ?case by simp
next
  case (Cons e entries)
  show ?case
  proof (cases "checkValidPluginFolder env files (folder @ [fst e])")
    case (Inl err)
    with Cons.prems show ?thesis by simp
  next
    case (Inr valid)
    show ?thesis
    proof (cases valid)
      case False
      with Inr Cons show ?thesis by simp
    next
      case True
      show ?thesis
      proof (cases "read_plugin env files folder (fst e)")
        case (Inl err)
        with Inr True Cons.prems show ?thesis by simp
      next
        case r: (Inr entry)
        with Inr True Cons.prems
        have "list_loop env files folder entries (acc @ [entry]) = Inr ps" by simp
        from Cons.IH [OF this] show ?thesis by auto
      qed
    qed
  qed
qed

lemma list_loop_complete:
  "list_loop env files folder entries acc = Inr ps \<Longrightarrow> e \<in> set entries \<Longrightarrow>
   checkValidPluginFolder env files (folder @ [fst e]) = Inr True \<Longrightarrow>
     \<exists>p \<in> set ps. read_plugin env files folder (fst e) = Inr p"
proof (induction entries arbitrary: acc)
  case Nil
  then show ?case by simp
next
  case (Cons x entries)
  show ?case
  proof (cases "checkValidPluginFolder env files (folder @ [fst x])")
    case (Inl err)
    with Cons.prems show ?thesis by simp
  next
    case (Inr valid)
    show ?thesis
    proof (cases valid)
      case False
      with Inr Cons.prems have "list_loop env files folder entries acc = Inr ps" "e \<in> set entries"
        by auto
      from Cons.IH [OF this Cons.prems(3)] show ?thesis .
    next
      case True
      show ?thesis
      proof (cases "read_plugin env files folder (fst x)")
        case (Inl err)
        with Inr True Cons.prems show ?thesis by simp
      next
        case r: (Inr entry)
        with Inr True Cons.prems
        have l: "list_loop env files folder entries (acc @ [entry]) = Inr ps" by simp
        show ?thesis
        proof (cases "fst e = fst x")
          case True
          from list_loop_acc [OF l] have "entry \<in> set ps" by auto
          with r True show ?thesis by auto
        next
          case False
          with Cons.prems have "e \<in> set entries" by auto
          from Cons.IH [OF l this Cons.prems(3)] show ?thesis .
        qed
      qed
    qed
  qed
qed

lemma valid_is_directory:
  assumes "checkValidPluginFolder env files (folder @ [d]) = Inr True"
  shows "\<exists>es n. readdirSync files folder = Inr es \<and> (d, n) \<in> set es \<and> isDirectory n"
proof -
  from assms have "existsSync files ((folder @ [d]) @ [''main.js''])"
    by (auto simp: checkValidPluginFolder_def split: if_splits)
  then obtain m where m: "lookup files (folder @ [d] @ [''main.js'']) = Some m"
    by (auto simp: existsSync_def split: option.splits)
  then obtain f where f: "lookup files folder = Some f" and g: "lookup f ([d] @ [''main.js'']) = Some m"
    by (cases "lookup files folder") (auto simp: lookup_append)
  from g obtain es where es: "f = Dir es" by (cases f) auto
  with g obtain n where n: "map_of es d = Some n" and h: "lookup n [''main.js''] = Some m"
    by (cases "map_of es d") auto
  from h have "isDirectory n" by (cases n) auto
  moreover from n have "(d, n) \<in> set es" by (rule map_of_SomeD)
  ultimately show ?thesis using f es by (auto simp: readdirSync_def)
qed

lemma valid_is_listed:
  assumes l: "list_plugins env files folder = Inr ps"
    and v: "checkValidPluginFolder env files (folder @ [d]) = Inr True"
  shows "\<exists>p \<in> set ps. folderName p = d \<and> listed_name env files folder d = Inr (pluginName p)"
proof -
  from valid_is_directory [OF v] obtain es n where
    r: "readdirSync files folder = Inr es" and m: "(d, n) \<in> set es" and i: "isDirectory n"
    by blast
  from l r have ll: "list_loop env files folder (filter (\<lambda>entry. isDirectory (snd entry)) es) [] = Inr ps"
    by (simp add: list_plugins_def)
  from m i have "(d, n) \<in> set (filter (\<lambda>entry. isDirectory (snd entry)) es)" by simp
  from list_loop_complete [OF ll this] v
  obtain p where "p \<in> set ps" "read_plugin env files folder d = Inr p" by auto
  then show ?thesis using read_plugin_folderName read_plugin_name by blast
qed

lemma valid_namesake_found:
  assumes l: "list_plugins env files folder = Inr ps"
    and v: "checkValidPluginFolder env files (folder @ [d]) = Inr True"
    and n: "listed_name env files folder d = Inr (Str nm)"
  shows "\<exists>p. find_plugin nm ps = Some p"
proof -
  from valid_is_listed [OF l v] n obtain p where "p \<in> set ps" "pluginName p = Str nm" by auto
  then show ?thesis
    by (cases "find_plugin nm ps") (auto simp: find_plugin_def find_None_iff)
qed

lemma cp_tree_covers:
  "wf_node s \<Longrightarrow> cp_tree R p s d = (res, None) \<Longrightarrow> \<exists>x. res = Some x \<and> covers s x"
  and cp_entries_covers:
  "distinct (map fst es) \<Longrightarrow> list_all (\<lambda>e. wf_node (snd e)) es \<Longrightarrow>
   cp_entries R p es ds = (ds', None) \<Longrightarrow>
     list_all (\<lambda>e. case map_of ds' (fst e) of None \<Rightarrow> False | Some m \<Rightarrow> covers (snd e) m) es \<and>
     (\<forall>c. c \<notin> fst ` set es \<longrightarrow> map_of ds' c = map_of ds c)"
proof (induction R p s d and R p es ds arbitrary: res and ds' rule: cp_tree_cp_entries.induct)
  case (1 R p s dst)
  then show ?case by (auto split: option.splits node.splits if_splits)
next
  case (2 R p es dst)
  show ?case
  proof (cases dst)
    case None
    with "2.prems" have nr: "\<not> R p" by (auto split: if_splits)
    obtain ds' eo where c: "cp_entries R p es [] = (ds', eo)" by (cases "cp_entries R p es []")
    with "2.prems" None nr have eo: "eo = None" and res: "res = Some (Dir ds')" by auto
    from "2.IH"(1) [OF None nr _ _ c [unfolded eo]] "2.prems"(1)
    have "list_all (\<lambda>e. case map_of ds' (fst e) of None \<Rightarrow> False | Some m \<Rightarrow> covers (snd e) m) es"
      by simp
    with res show ?thesis by simp
  next
    case (Some n)
    show ?thesis
    proof (cases n)
      case (File t)
      with Some "2.prems" show ?thesis by simp
    next
      case (Dir ds)
      obtain ds' eo where c: "cp_entries R p es ds = (ds', eo)" by (cases "cp_entries R p es ds")
      with "2.prems" Some Dir have eo: "eo = None" and res: "res = Some (Dir ds')" by auto
      from "2.IH"(2) [OF Some Dir _ _ c [unfolded eo]] "2.prems"(1)
      have "list_all (\<lambda>e. case map_of ds' (fst e) of None \<Rightarrow> False | Some m \<Rightarrow> covers (snd e) m) es"
        by simp
      with res show ?thesis by simp
    qed
  qed
next
  case (3 R p ds)
  then show ?case by simp
next
  case (4 R p c n es ds)
  obtain r eo where t: "cp_tree R (p @ [c]) n (map_of ds c) = (r, eo)"
    by (cases "cp_tree R (p @ [c]) n (map_of ds c)")
  from "4.prems" have wfn: "wf_node n" and dist: "distinct (map fst es)" and cfresh: "c \<notin> fst ` set es"
    and wfes: "list_all (\<lambda>e. wf_node (snd e)) es"
    by auto
  from "4.prems"(3) t have eo: "eo = None"
    by (auto split: option.splits)
  from "4.IH"(1) [OF wfn t [unfolded eo]] obtain n' where r: "r = Some n'" and cov: "covers n n'"
    by blast
  from "4.prems"(3) t r eo have rest: "cp_entries R p es (AList.update c n' ds) = (ds', None)"
    by simp
  from "4.IH"(2) [OF t [symmetric] r eo dist wfes rest]
  have all: "list_all (\<lambda>e. case map_of ds' (fst e) of None \<Rightarrow> False | Some m \<Rightarrow> covers (snd e) m) es"
    and frame: "\<forall>k. k \<notin> fst ` set es \<longrightarrow> map_of ds' k = map_of (AList.update c n' ds) k"
    by simp_all
  from frame cfresh have "map_of ds' c = Some n'" by (simp add: update_conv')
  with cov all frame show ?case by (auto simp: update_conv')
qed


lemma rm_tree_done: "rm_tree R p n = (left, None) \<Longrightarrow> left = None"
  and rm_entries_done: "rm_entries R p es = (rest, None) \<Longrightarrow> rest = []"
proof (induction R p n and R p es arbitrary: left and rest rule: rm_tree_rm_entries.induct)
  case (1 R p s)
  then show ?case by (auto split: if_splits)
next
  case (2 R p es)
  then show ?case by (auto split: prod.splits option.splits if_splits)
next
  case (3 R p)
  then show ?case by simp
next
  case (4 R p c n es)
  then show ?case by (auto split: prod.splits option.splits)
qed

lemma exists_no_file_above: "lookup n p = Some m \<Longrightarrow> \<not> file_above n p"
  by (induction n p rule: lookup.induct) (auto split: option.splits)

lemma alter_fs_at:
  "p \<noteq> [] \<Longrightarrow> \<not> file_above files p \<Longrightarrow> lookup (alter_fs p f files) p = f (lookup files p)"
proof -
  assume ne: "p \<noteq> []" and nf: "\<not> file_above files p"
  from ne obtain c p' where p: "p = c # p'" by (cases p) auto
  obtain x where x: "alter p f (Some files) = Some x"
    using alter_Some_Cons p by blast
  from alter_at [where n = "Some files" and p = p and f = f] nf x show ?thesis
    by (simp add: alter_fs_def)
qed

lemma separate_sym: "separate p q \<Longrightarrow> separate q p"
  by (auto simp: separate_def)

lemma separate_ne: "separate p q \<Longrightarrow> p \<noteq> [] \<and> q \<noteq> [] \<and> p \<noteq> q \<and> \<not> inside p q"
  by (cases p; cases q) (auto simp: separate_def inside_def)

lemma cpSync_separate:
  assumes "separate src dst" and "lookup files src = Some n"
  shows "lookup (snd (cpSync R src dst files)) src = Some n"
    and "fst (cpSync R src dst files) = Inr () \<Longrightarrow> wf_node n \<Longrightarrow>
          \<exists>d. lookup (snd (cpSync R src dst files)) dst = Some d \<and> covers n d"
proof -
  have sd: "separate dst src" using assms(1) by (rule separate_sym)
  from separate_ne [OF assms(1)] have ne: "src \<noteq> dst" "\<not> inside src dst" "dst \<noteq> []" by auto
  show "lookup (snd (cpSync R src dst files)) src = Some n"
    using assms(2) ne alter_fs_frame [OF sd]
    by (auto simp: cpSync_def split: prod.splits option.splits)
  show "\<exists>d. lookup (snd (cpSync R src dst files)) dst = Some d \<and> covers n d"
    if ok: "fst (cpSync R src dst files) = Inr ()" and wf: "wf_node n"
  proof -
    from ok assms(2) ne have nf: "\<not> file_above files dst"
      by (auto simp: cpSync_def split: if_splits)
    obtain res eo where c: "cp_tree R dst n (lookup files dst) = (res, eo)"
      by (cases "cp_tree R dst n (lookup files dst)")
    with ok assms(2) ne nf have eo: "eo = None"
      by (auto simp: cpSync_def split: option.splits)
    from cp_tree_covers [OF wf c [unfolded eo]] obtain d where d: "res = Some d" "covers n d"
      by blast
    have "snd (cpSync R src dst files) = alter_fs dst (\<lambda>old. res) files"
      using assms(2) ne nf c eo by (simp add: cpSync_def)
    with alter_fs_at [OF ne(3) nf, of "\<lambda>old. res"] d show ?thesis by simp
  qed
qed

lemma rmSync_separate:
  assumes "separate src dst"
  shows "lookup (snd (rmSync R src files)) dst = lookup files dst"
  using assms by (rule rmSync_frame)

lemma rmSync_gone:
  assumes "fst (rmSync R src files) = Inr ()" and "src \<noteq> []"
  shows "lookup (snd (rmSync R src files)) src = None"
proof (cases "lookup files src")
  case None
  with assms show ?thesis by (simp add: rmSync_def)
next
  case (Some n)
  obtain left eo where r: "rm_tree R src n = (left, eo)" by (cases "rm_tree R src n")
  with assms Some have eo: "eo = None" by (auto simp: rmSync_def split: option.splits)
  from rm_tree_done r eo have left: "left = None" by blast
  have nf: "\<not> file_above files src" using Some by (rule exists_no_file_above)
  have "snd (rmSync R src files) = alter_fs src (\<lambda>old. None) files"
    using Some r eo left by (simp add: rmSync_def)
  with alter_fs_at [OF assms(2) nf, of "\<lambda>old. None"] show ?thesis by simp
qed

section \<open>Evaluations on the example\<close>

lemma example_name_valid: "validatePluginName ''flux''"
  by code_simp

lemma example_pkg_name_valid: "validatePluginName (name example_pkg)"
  by code_simp

lemma example_url_valid: "validateArchiveURL example_archive_url"
  by code_simp

lemma example_digest:
  "sha256_hex example_archive =
     ''baa89858c7e545390273530ba63c61b94c2e09d38c28b0a0311bfa7bde396181''"
  by code_simp

lemma example_temp_dir:
  "mkdtempSync (os_refuses example_platform) (tmpdir example_platform) ''headlamp-plugin-temp-''
     (mkdtemp_suffix example_platform) (fs example_world) =
   (Inr [''tmp'', ''headlamp-plugin-temp-Ab3xZ9''],
    snd (mkdtempSync (os_refuses example_platform) (tmpdir example_platform)
           ''headlamp-plugin-temp-'' (mkdtemp_suffix example_platform) (fs example_world)))"
proof -
  have "fst (mkdtempSync (os_refuses example_platform) (tmpdir example_platform)
     ''headlamp-plugin-temp-'' (mkdtemp_suffix example_platform) (fs example_world)) =
     Inr [''tmp'', ''headlamp-plugin-temp-Ab3xZ9'']"
    by code_simp
  then show ?thesis by (metis prod.collapse)
qed

lemma example_temp_folder:
  "mkdirSync (os_refuses example_platform)
     (path_join [''tmp'', ''headlamp-plugin-temp-Ab3xZ9''] (name example_pkg))
     (snd (mkdtempSync (os_refuses example_platform) (tmpdir example_platform)
             ''headlamp-plugin-temp-'' (mkdtemp_suffix example_platform) (fs example_world))) =
   (Inr (Some [''tmp'', ''headlamp-plugin-temp-Ab3xZ9'', ''flux'']),
    snd (mkdirSync (os_refuses example_platform)
     (path_join [''tmp'', ''headlamp-plugin-temp-Ab3xZ9''] (name example_pkg))
     (snd (mkdtempSync (os_refuses example_platform) (tmpdir example_platform)
             ''headlamp-plugin-temp-'' (mkdtemp_suffix example_platform) (fs example_world)))))"
proof -
  have "fst (mkdirSync (os_refuses example_platform)
     (path_join [''tmp'', ''headlamp-plugin-temp-Ab3xZ9''] (name example_pkg))
     (snd (mkdtempSync (os_refuses example_platform) (tmpdir example_platform)
             ''headlamp-plugin-temp-'' (mkdtemp_suffix example_platform) (fs example_world)))) =
     Inr (Some [''tmp'', ''headlamp-plugin-temp-Ab3xZ9'', ''flux''])"
    by code_simp
  then show ?thesis by (metis prod.collapse)
qed

lemma example_listed:
  "list_plugins example_platform (fs example_world) [''plugins''] = Inr [installed_plugin]"
  by code_simp

lemma example_found: "find_plugin ''@headlamp-k8s/flux'' [installed_plugin] = Some installed_plugin"
  by code_simp

lemma example_manifest_parsed:
  "parse_file example_platform (fs example_world)
     ([''plugins''] @ [folderName installed_plugin] @ [''package.json'']) = Inr installed_json"
  by code_simp

lemma example_metadata:
  "fetchPluginInfo example_platform (artifacthubURL installed_plugin) True None example_world =
     (Inr (example_pkg\<lparr>version := ''0.1.0''\<rparr>),
      snd (fetchPluginInfo example_platform (artifacthubURL installed_plugin) True None
             example_world))"
proof -
  have "fst (fetchPluginInfo example_platform (artifacthubURL installed_plugin) True None
      example_world) = Inr (example_pkg\<lparr>version := ''0.1.0''\<rparr>)"
    by code_simp
  then show ?thesis by (metis prod.collapse)
qed

lemma newer_update_changes_files:
  "fs (snd (update newer_platform ''@headlamp-k8s/flux'' [''plugins''] [] True None example_world))
     \<noteq> fs example_world"
  by code_simp

lemma my_tool_invalid:
  "checkValidPluginFolder example_platform (fs example_world) ([''plugins''] @ [''my-tool'']) =
     Inr False"
  by code_simp

lemma my_tool_not_found: "find_plugin ''my-tool'' [installed_plugin] = None"
  by code_simp

lemma flux_uninstall_changes:
  "fs (snd (uninstall example_platform ''@headlamp-k8s/flux'' [''plugins''] True example_world)) \<noteq>
     fs example_world"
  by code_simp

lemma elsewhere_url_invalid: "\<not> validateArchiveURL ''https://example.com/flux-0.2.0.tar.gz''"
  by code_simp

lemma flux_valid:
  "checkValidPluginFolder example_platform (fs example_world) ([''plugins''] @ [''flux'']) = Inr True"
  by code_simp

lemma flux_name:
  "listed_name example_platform (fs example_world) [''plugins''] ''flux'' =
     Inr (Str ''@headlamp-k8s/flux'')"
  by code_simp

lemma my_tool_name:
  "listed_name example_platform (fs example_world) [''plugins''] ''my-tool'' =
     Inr (Str ''my-tool'')"
  by code_simp

lemma notes_invalid:
  "checkValidPluginFolder example_platform (fs example_world) ([''plugins''] @ [''notes'']) =
     Inr False"
  by code_simp

lemma example_entries:
  "readdirSync (fs example_world) [''plugins''] = Inr es \<Longrightarrow> (c, n) \<in> set es \<Longrightarrow>
     c = ''flux'' \<or> c = ''my-tool'' \<or> c = ''notes''"
  by (auto simp: readdirSync_def example_world_def example_files_def)

lemma my_tool_no_valid_namesake:
  "\<forall>c. listed_name example_platform (fs example_world) [''plugins''] c = Inr (Str ''my-tool'') \<longrightarrow>
     checkValidPluginFolder example_platform (fs example_world) ([''plugins''] @ [c]) \<noteq> Inr True"
proof (intro allI impI notI)
  fix c
  assume n: "listed_name example_platform (fs example_world) [''plugins''] c = Inr (Str ''my-tool'')"
    and v: "checkValidPluginFolder example_platform (fs example_world) ([''plugins''] @ [c]) = Inr True"
  from valid_is_directory [OF v] example_entries
  have "c = ''flux'' \<or> c = ''my-tool'' \<or> c = ''notes''" by blast
  then show False
    using n v flux_name my_tool_invalid notes_invalid by auto
qed

lemma draft_list_fails:
  "list_plugins example_platform (fs foreign_world) [''plugins''] =
     Inl (SyntaxError ''Unexpected token in JSON'')"
  by code_simp


section \<open>The archive address (claim C3)\<close>

text \<open>
  Claim C3. \<open>validateArchiveURL\<close> returns true exactly for the addresses on the
  allow-list (GitHub \<open>releases\<close> or \<open>archive\<close> paths, Bitbucket \<open>downloads\<close> or \<open>get\<close>
  paths, GitLab \<open>-/archive\<close> or \<open>releases\<close> paths, and the pinned fixture prefix) and
  false for every other address; with such an address \<open>downloadExtractArchive\<close> fails
  and leaves the world as it was (no directory, no request, no progress event), and the
  failure is the invalid-archive-url error whenever the two checks before it (the
  cancellation signal, the plugin name) pass.
\<close>

theorem validateArchiveURL_allow_list:
  "(validateArchiveURL url \<longleftrightarrow> on_allow_list url) \<and>
   (\<not> on_allow_list url \<and> archiveURL pkg = Some url \<longrightarrow>
      (\<exists>e. downloadExtractArchive env (Some pkg) headlampVersion cb signal w = (Inl e, w)) \<and>
      (\<not> aborted signal 0 \<and> validatePluginName (name pkg) \<longrightarrow>
         downloadExtractArchive env (Some pkg) headlampVersion cb signal w =
           (Inl (Error (''Invalid plugin/archive-url:'' @ url)), w)))"
  by (simp add: validateArchiveURL_iff downloadExtractArchive_def)

theorem validateArchiveURL_allow_list_witness:
  "\<not> on_allow_list ''https://example.com/flux-0.2.0.tar.gz'' \<and>
   downloadExtractArchive example_platform
     (Some (example_pkg\<lparr>archiveURL := Some ''https://example.com/flux-0.2.0.tar.gz''\<rparr>))
     [] False None example_world =
   (Inl (Error ''Invalid plugin/archive-url:https://example.com/flux-0.2.0.tar.gz''), example_world)"
  using elsewhere_url_invalid example_name_valid
    validateArchiveURL_allow_list [of "''https://example.com/flux-0.2.0.tar.gz''"
      "example_pkg\<lparr>archiveURL := Some ''https://example.com/flux-0.2.0.tar.gz''\<rparr>"
      example_platform "[]" False None example_world]
  by (simp add: example_pkg_def)


section \<open>The plugin name (claim C2)\<close>

text \<open>
  Claim C2, as amended. For every plugin name with a slash, a backslash or \<open>..\<close> in it,
  \<open>validatePluginName\<close> returns false. When it is the package name of the registry's
  metadata, \<open>downloadExtractArchive\<close> fails before it creates a directory, issues a
  request or reports progress: the world is as it was. Unless the signal has fired
  already, the failure is \<open>Invalid plugin name\<close>, and so \<open>installFromPluginPkg\<close>,
  \<open>install\<close> (once the metadata has arrived) and the replacement step of \<open>update\<close>
  end with that error, thrown or reported to the callback. Nothing is said of the name
  \<open>update\<close> and \<open>uninstall\<close> are called with: they do not validate it.
\<close>

theorem invalid_name_aborts_download:
  "has_separator_or_dotdot (name pkg) \<longrightarrow>
     \<not> validatePluginName (name pkg) \<and>
     (\<exists>e. downloadExtractArchive env (Some pkg) headlampVersion cb signal w = (Inl e, w)) \<and>
     (\<not> aborted signal 0 \<longrightarrow>
        downloadExtractArchive env (Some pkg) headlampVersion cb signal w =
          (Inl (Error ''Invalid plugin name''), w) \<and>
        installFromPluginPkg env (Some pkg) destinationFolder headlampVersion cb signal w =
          (if cb then (Inr (), emit cb (failure (Error ''Invalid plugin name'')) w)
           else (Inl (Error ''Invalid plugin name''), w)) \<and>
        replace_plugin env pkg pluginDir destinationFolder headlampVersion cb signal w =
          (Inl (Error ''Invalid plugin name''), w)) \<and>
     (\<not> aborted (later 1 signal0) 0 \<and> fetchPluginInfo env URL cb signal0 w0 = (Inr pkg, w) \<longrightarrow>
        install env URL destinationFolder headlampVersion cb signal0 w0 =
          (if cb then (Inr (), emit cb (failure (Error ''Invalid plugin name'')) w)
           else (Inl (Error ''Invalid plugin name''), w)))"
  by (simp add: validatePluginName_iff downloadExtractArchive_def installFromPluginPkg_def
      replace_plugin_def catch_report_def install_def)

lemma dotdot_name: "has_separator_or_dotdot ''../../etc''"
proof -
  have "''../../etc'' = [] @ ''..'' @ ''/../etc''" by simp
  then show ?thesis unfolding has_separator_or_dotdot_def by blast
qed

theorem invalid_name_aborts_download_witness:
  "has_separator_or_dotdot ''../../etc'' \<and>
   \<not> validatePluginName ''../../etc'' \<and>
   downloadExtractArchive example_platform (Some (example_pkg\<lparr>name := ''../../etc''\<rparr>)) [] True None
       example_world =
     (Inl (Error ''Invalid plugin name''), example_world) \<and>
   installFromPluginPkg example_platform (Some (example_pkg\<lparr>name := ''../../etc''\<rparr>))
       [''plugins''] [] True None example_world =
     (Inr (), emit True (failure (Error ''Invalid plugin name'')) example_world)"
  using dotdot_name
    invalid_name_aborts_download [of "example_pkg\<lparr>name := ''../../etc''\<rparr>" example_platform
      "[]" True None example_world "[''plugins'']"]
  by (simp add: example_pkg_def)

text \<open>
  The claim as it was stated fails for \<open>uninstall\<close>: called with the manifest name of
  the installed plugin, which has a \<open>/\<close> in it, it does not abort but removes the folder.
\<close>

theorem uninstall_by_name_with_separator_counterexample:
  "has_separator_or_dotdot ''@headlamp-k8s/flux'' \<and>
   fst (uninstall example_platform ''@headlamp-k8s/flux'' [''plugins''] False example_world) = Inr () \<and>
   existsSync (fs example_world) [''plugins'', ''flux''] \<and>
   \<not> existsSync (fs (snd (uninstall example_platform ''@headlamp-k8s/flux'' [''plugins''] False
          example_world))) [''plugins'', ''flux'']"
proof -
  have "has_separator_or_dotdot ''@headlamp-k8s/flux''"
    by (simp add: has_separator_or_dotdot_def)
  moreover have
    "fst (uninstall example_platform ''@headlamp-k8s/flux'' [''plugins''] False example_world) = Inr ()"
    by code_simp
  moreover have "existsSync (fs example_world) [''plugins'', ''flux'']"
    by code_simp
  moreover have
    "\<not> existsSync (fs (snd (uninstall example_platform ''@headlamp-k8s/flux'' [''plugins''] False
          example_world))) [''plugins'', ''flux'']"
    by code_simp
  ultimately show ?thesis by blast
qed


section \<open>The checksum (claim C1)\<close>

text \<open>
  Every check of \<open>downloadExtractArchive\<close> before the comparison, passed: then the
  comparison decides between the checksum error and the extraction.
\<close>

lemma download_at_checksum:
  assumes "\<not> aborted signal 0" and "validatePluginName (name pkg)"
    and "archiveURL pkg = Some url" and "validateArchiveURL url"
    and "archiveChecksum pkg = Some declared" and "declared \<noteq> []"
    and "headlampVersion = [] \<or> semver_satisfies env headlampVersion (versionCompat pkg)"
    and "\<not> aborted signal 1"
    and "mkdtempSync (os_refuses env) (tmpdir env) ''headlamp-plugin-temp-'' (mkdtemp_suffix env)
           (fs w) = (Inr tempDir, files1)"
    and "mkdirSync (os_refuses env) (path_join tempDir (name pkg)) files1 = (Inr tempFolder, files2)"
    and "\<not> aborted signal 2"
    and "downloads env url = Response True status (Some (archChunks, None))"
    and "\<not> aborted signal 3"
  shows "\<exists>w3. fs w3 = files2 \<and> extracted (log w3) = extracted (log w) \<and>
           downloadExtractArchive env (Some pkg) headlampVersion cb signal w =
             (if sha256_hex (concat archChunks) \<noteq> strip_algorithm declared
              then (Inl (Error ''Checksum mismatch.''), w3)
              else extract_stage env pkg (concat archChunks) tempFolder cb signal w3)"
proof -
  define w0 where "w0 =
    (if headlampVersion = [] then w
     else emit cb (info ''Headlamp version is compatible'')
            (emit cb (info ''Checking compatibility with Headlamp version'') w))"
  define w3 where "w3 =
    emit cb (info ''Plugin Downloaded'')
      ((emit cb (info ''Downloading Plugin'') (w0\<lparr>fs := files2\<rparr>))
         \<lparr>log := log (emit cb (info ''Downloading Plugin'') (w0\<lparr>fs := files2\<rparr>)) @ [Request url]\<rparr>)"
  have url: "url \<noteq> []"
    using assms(4) by (auto simp: validateArchiveURL_def githubRegex_def bitbucketRegex_def
        gitlabRegex_def startsWith_def)
  have f0: "fs w0 = fs w" and l0: "extracted (log w0) = extracted (log w)"
    by (simp_all add: w0_def)
  have f3: "fs w3 = files2"
    by (simp add: w3_def)
  have l3: "extracted (log w3) = extracted (log w)"
    by (simp add: w3_def log_emit l0)
  have stage: "download_stage env pkg url (strip_algorithm declared) cb signal w0 =
      (if sha256_hex (concat archChunks) \<noteq> strip_algorithm declared
       then (Inl (Error ''Checksum mismatch.''), w3)
       else extract_stage env pkg (concat archChunks) tempFolder cb signal w3)"
    using assms(8-13) f0
    by (simp add: download_stage_def on_fs_def fetch_def w3_def)
  have "downloadExtractArchive env (Some pkg) headlampVersion cb signal w =
      download_stage env pkg url (strip_algorithm declared) cb signal w0"
    using assms(1-7) url by (auto simp: downloadExtractArchive_def w0_def)
  with stage f3 l3 show ?thesis by metis
qed

text \<open>
  Claim C1, as amended. With every earlier check passed and the body downloaded in
  full, \<open>downloadExtractArchive\<close> hands the bytes to the extractor if and only if their
  SHA-256 digest, in lowercase hexadecimal, is character for character the declared
  checksum with its algorithm prefix stripped (and the signal has not fired by then);
  a declared digest in upper case is a mismatch. On a mismatch it fails with the
  checksum error, nothing is extracted, and the file system holds what the two
  directory calls left.
\<close>

theorem checksum_gate:
  assumes "\<not> aborted signal 0" and "validatePluginName (name pkg)"
    and "archiveURL pkg = Some url" and "validateArchiveURL url"
    and "archiveChecksum pkg = Some declared" and "declared \<noteq> []"
    and "headlampVersion = [] \<or> semver_satisfies env headlampVersion (versionCompat pkg)"
    and "\<not> aborted signal 1"
    and "mkdtempSync (os_refuses env) (tmpdir env) ''headlamp-plugin-temp-'' (mkdtemp_suffix env)
           (fs w) = (Inr tempDir, files1)"
    and "mkdirSync (os_refuses env) (path_join tempDir (name pkg)) files1 = (Inr tempFolder, files2)"
    and "\<not> aborted signal 2"
    and "downloads env url = Response True status (Some (archChunks, None))"
    and "\<not> aborted signal 3"
  shows "(sha256_hex (concat archChunks) \<noteq> strip_algorithm declared \<longrightarrow>
            fst (downloadExtractArchive env (Some pkg) headlampVersion cb signal w) =
              Inl (Error ''Checksum mismatch.'') \<and>
            fs (snd (downloadExtractArchive env (Some pkg) headlampVersion cb signal w)) = files2) \<and>
         extracted (log (snd (downloadExtractArchive env (Some pkg) headlampVersion cb signal w))) =
           extracted (log w) @
             (if sha256_hex (concat archChunks) = strip_algorithm declared \<and> \<not> aborted signal 4
              then [(concat archChunks, case tempFolder of None \<Rightarrow> cwd env | Some d \<Rightarrow> d)]
              else [])"
proof -
  from download_at_checksum [OF assms, of cb]
  obtain w3 where "fs w3 = files2" "extracted (log w3) = extracted (log w)"
    and "downloadExtractArchive env (Some pkg) headlampVersion cb signal w =
             (if sha256_hex (concat archChunks) \<noteq> strip_algorithm declared
              then (Inl (Error ''Checksum mismatch.''), w3)
              else extract_stage env pkg (concat archChunks) tempFolder cb signal w3)"
    by blast
  then show ?thesis by (simp add: extracted_extract_stage)
qed

theorem checksum_gate_witness:
  "sha256_hex (concat [example_archive]) =
     strip_algorithm ''sha256:baa89858c7e545390273530ba63c61b94c2e09d38c28b0a0311bfa7bde396181'' \<and>
   extracted (log (snd (downloadExtractArchive example_platform (Some example_pkg) [] False None
      example_world))) =
     [(example_archive, [''tmp'', ''headlamp-plugin-temp-Ab3xZ9'', ''flux''])]"
proof -
  have strip: "strip_algorithm ''sha256:baa89858c7e545390273530ba63c61b94c2e09d38c28b0a0311bfa7bde396181'' =
      ''baa89858c7e545390273530ba63c61b94c2e09d38c28b0a0311bfa7bde396181''"
    by (simp add: strip_algorithm_def startsWith_def)
  have dl: "downloads example_platform example_archive_url =
      Response True 200 (Some ([example_archive], None))"
    by (simp add: example_platform_def)
  have g: "extracted (log (snd (downloadExtractArchive example_platform (Some example_pkg) [] False None
      example_world))) =
     extracted (log example_world) @
       (if sha256_hex (concat [example_archive]) =
             strip_algorithm ''sha256:baa89858c7e545390273530ba63c61b94c2e09d38c28b0a0311bfa7bde396181'' \<and>
           \<not> aborted None 4
        then [(concat [example_archive],
               case Some [''tmp'', ''headlamp-plugin-temp-Ab3xZ9'', ''flux''] of
                 None \<Rightarrow> cwd example_platform | Some d \<Rightarrow> d)]
        else [])"
    using checksum_gate [of None example_pkg example_archive_url
        "''sha256:baa89858c7e545390273530ba63c61b94c2e09d38c28b0a0311bfa7bde396181''" "[]"
        example_platform example_world "[''tmp'', ''headlamp-plugin-temp-Ab3xZ9'']" _ _ _
        200 "[example_archive]" False,
        OF _ example_pkg_name_valid _ example_url_valid _ _ _ _ example_temp_dir example_temp_folder _ dl]
    by (simp add: example_pkg_def)
  show ?thesis
    using g strip example_digest by (simp add: example_world_def)
qed

text \<open>
  The claim as it was stated fails on a declared checksum in upper case: it is the
  digest of the bytes but for the case of its digits, and the download is rejected.
\<close>

theorem uppercase_checksum_counterexample:
  "toLowerCase (strip_algorithm
       ''SHA256:BAA89858C7E545390273530BA63C61B94C2E09D38C28B0A0311BFA7BDE396181'') =
     sha256_hex example_archive \<and>
   fst (downloadExtractArchive example_platform
          (Some (example_pkg\<lparr>archiveChecksum :=
             Some ''SHA256:BAA89858C7E545390273530BA63C61B94C2E09D38C28B0A0311BFA7BDE396181''\<rparr>))
          [] False None example_world) =
     Inl (Error ''Checksum mismatch.'') \<and>
   extracted (log (snd (downloadExtractArchive example_platform
          (Some (example_pkg\<lparr>archiveChecksum :=
             Some ''SHA256:BAA89858C7E545390273530BA63C61B94C2E09D38C28B0A0311BFA7BDE396181''\<rparr>))
          [] False None example_world))) = []"
proof -
  have strip: "strip_algorithm
       ''SHA256:BAA89858C7E545390273530BA63C61B94C2E09D38C28B0A0311BFA7BDE396181'' =
      ''BAA89858C7E545390273530BA63C61B94C2E09D38C28B0A0311BFA7BDE396181''"
    by (simp add: strip_algorithm_def startsWith_def)
  have low: "toLowerCase ''BAA89858C7E545390273530BA63C61B94C2E09D38C28B0A0311BFA7BDE396181'' =
      ''baa89858c7e545390273530ba63c61b94c2e09d38c28b0a0311bfa7bde396181''"
    by (simp add: toLowerCase_def)
  have dl: "downloads example_platform example_archive_url =
      Response True 200 (Some ([example_archive], None))"
    by (simp add: example_platform_def)
  have nm: "name (example_pkg\<lparr>archiveChecksum :=
             Some ''SHA256:BAA89858C7E545390273530BA63C61B94C2E09D38C28B0A0311BFA7BDE396181''\<rparr>) =
      name example_pkg"
    by simp
  have "\<exists>w3. fs w3 = snd (mkdirSync (os_refuses example_platform)
     (path_join [''tmp'', ''headlamp-plugin-temp-Ab3xZ9''] (name example_pkg))
     (snd (mkdtempSync (os_refuses example_platform) (tmpdir example_platform)
             ''headlamp-plugin-temp-'' (mkdtemp_suffix example_platform) (fs example_world)))) \<and>
       extracted (log w3) = extracted (log example_world) \<and>
       downloadExtractArchive example_platform
          (Some (example_pkg\<lparr>archiveChecksum :=
             Some ''SHA256:BAA89858C7E545390273530BA63C61B94C2E09D38C28B0A0311BFA7BDE396181''\<rparr>))
          [] False None example_world =
         (if sha256_hex (concat [example_archive]) \<noteq> strip_algorithm
                ''SHA256:BAA89858C7E545390273530BA63C61B94C2E09D38C28B0A0311BFA7BDE396181''
          then (Inl (Error ''Checksum mismatch.''), w3)
          else extract_stage example_platform
            (example_pkg\<lparr>archiveChecksum :=
               Some ''SHA256:BAA89858C7E545390273530BA63C61B94C2E09D38C28B0A0311BFA7BDE396181''\<rparr>)
            (concat [example_archive]) (Some [''tmp'', ''headlamp-plugin-temp-Ab3xZ9'', ''flux''])
            False None w3)"
    using download_at_checksum [of None
        "example_pkg\<lparr>archiveChecksum :=
           Some ''SHA256:BAA89858C7E545390273530BA63C61B94C2E09D38C28B0A0311BFA7BDE396181''\<rparr>"
        example_archive_url
        "''SHA256:BAA89858C7E545390273530BA63C61B94C2E09D38C28B0A0311BFA7BDE396181''" "[]"
        example_platform example_world "[''tmp'', ''headlamp-plugin-temp-Ab3xZ9'']" _ _ _
        200 "[example_archive]" False,
        OF _ _ _ example_url_valid _ _ _ _ example_temp_dir _ _ dl]
      example_pkg_name_valid example_temp_folder
    by (simp add: example_pkg_def)
  then show ?thesis
    using strip low example_digest by (auto simp: example_world_def)
qed

section \<open>The managed flag (claim C10)\<close>

text \<open>
  \<open>checkValidPluginFolder\<close> takes the flag by its truthiness: for a folder with \<open>main.js\<close>
  and a manifest that parses to an object with the flag, the result is the truthiness
  of the flag, so a non-empty string or a number other than zero passes for \<open>true\<close>.
\<close>

lemma checkValidPluginFolder_truthy:
  "existsSync files (folder @ [''main.js'']) \<and>
   readFileSync files (folder @ [''package.json'']) = Inr text \<and>
   JSON_parse env text = Some (Obj kvs) \<and>
   map_of kvs ''isManagedByHeadlampPlugin'' = Some flag \<longrightarrow>
     checkValidPluginFolder env files folder = Inr (truthy flag) \<and>
     (flag = Str (c # s) \<or> (flag = Num x \<and> x \<noteq> 0) \<longrightarrow>
        checkValidPluginFolder env files folder = Inr True)"
proof (intro impI)
  assume h: "existsSync files (folder @ [''main.js'']) \<and>
   readFileSync files (folder @ [''package.json'']) = Inr text \<and>
   JSON_parse env text = Some (Obj kvs) \<and>
   map_of kvs ''isManagedByHeadlampPlugin'' = Some flag"
  then have "existsSync files folder" "existsSync files (folder @ [''package.json''])"
    using existsSync_parent readFileSync_exists by blast+
  with h have "checkValidPluginFolder env files folder = Inr (truthy flag)"
    by (simp add: checkValidPluginFolder_def parse_file_def)
  then show "checkValidPluginFolder env files folder = Inr (truthy flag) \<and>
     (flag = Str (c # s) \<or> (flag = Num x \<and> x \<noteq> 0) \<longrightarrow>
        checkValidPluginFolder env files folder = Inr True)"
    by auto
qed


section \<open>Cancellation before the metadata request (claim C9)\<close>

text \<open>
  Claim C9, as amended. When the signal has fired before \<open>fetchPluginInfo\<close> is called,
  no request is issued, the file system is untouched and the call fails: with the
  \<open>AbortError\<close> of \<open>fetch\<close> when the address is one of ArtifactHub's package pages, and
  with the invalid-URL error, which is checked first, when it is not.
\<close>

theorem fetchPluginInfo_aborted:
  "aborted signal 0 \<longrightarrow>
     request_urls (log (snd (fetchPluginInfo env URL cb signal w))) = request_urls (log w) \<and>
     fs (snd (fetchPluginInfo env URL cb signal w)) = fs w \<and>
     (\<exists>e. fst (fetchPluginInfo env URL cb signal w) = Inl e) \<and>
     (URL = Str u \<and> startsWith u ''https://artifacthub.io/packages/headlamp/'' \<longrightarrow>
        fst (fetchPluginInfo env URL cb signal w) = Inl AbortError) \<and>
     (URL = Str u \<and> \<not> startsWith u ''https://artifacthub.io/packages/headlamp/'' \<longrightarrow>
        fst (fetchPluginInfo env URL cb signal w) =
          Inl (Error ''Invalid URL. Please provide a valid URL from ArtifactHub.''))"
  by (cases URL)
    (simp_all add: fetchPluginInfo_def fetchPluginInfo_try_def fetch_def log_emit)

theorem fetchPluginInfo_aborted_witness:
  "aborted (Some (AbortsAt 0)) 0 \<and>
   startsWith ''https://artifacthub.io/packages/headlamp/headlamp-plugins/flux''
     ''https://artifacthub.io/packages/headlamp/'' \<and>
   request_urls (log (snd (fetchPluginInfo example_platform
      (Str ''https://artifacthub.io/packages/headlamp/headlamp-plugins/flux'') True
      (Some (AbortsAt 0)) example_world))) = [] \<and>
   fst (fetchPluginInfo example_platform
      (Str ''https://artifacthub.io/packages/headlamp/headlamp-plugins/flux'') True
      (Some (AbortsAt 0)) example_world) = Inl AbortError"
  using fetchPluginInfo_aborted [of "Some (AbortsAt 0)" example_platform
      "Str ''https://artifacthub.io/packages/headlamp/headlamp-plugins/flux''" True example_world
      "''https://artifacthub.io/packages/headlamp/headlamp-plugins/flux''"]
  by (simp add: startsWith_def example_world_def)

text \<open>
  The claim as it was stated fails on an address that is not ArtifactHub's: the call
  fails, but not as cancelled.
\<close>

theorem fetchPluginInfo_aborted_invalid_url_counterexample:
  "aborted (Some (AbortsAt 0)) 0 \<and>
   fetchPluginInfo example_platform (Str ''https://example.com/headlamp-plugins/flux'') False
      (Some (AbortsAt 0)) example_world =
     (Inl (Error ''Invalid URL. Please provide a valid URL from ArtifactHub.''), example_world)"
  by (simp add: fetchPluginInfo_def fetchPluginInfo_try_def startsWith_def)

section \<open>One terminal event (claim C4)\<close>

text \<open>
  Claim C4 says that an operation with a callback attached reports exactly one terminal
  event. \<open>install\<close> does not: on an address that is not ArtifactHub's,
  \<open>fetchPluginInfo\<close> reports the error and throws it, the \<open>catch\<close> of \<open>install\<close> reports
  it again and goes on, and \<open>installFromPluginPkg\<close> reports the \<open>TypeError\<close> of reading
  \<open>undefined\<close>: three error events, and a resolved promise.
\<close>

theorem install_reports_three_errors:
  "install example_platform (Str ''https://example.com/headlamp-plugins/flux'') [''plugins''] []
      True None example_world =
   (Inr (),
    example_world\<lparr>log :=
      [Progress (failure (Error ''Invalid URL. Please provide a valid URL from ArtifactHub.'')),
       Progress (failure (Error ''Invalid URL. Please provide a valid URL from ArtifactHub.'')),
       Progress (failure (TypeError ''Cannot read properties of undefined''))]\<rparr>)"
  by (simp add: install_def fetchPluginInfo_def fetchPluginInfo_try_def startsWith_def
      installFromPluginPkg_def downloadExtractArchive_def catch_report_def emit_def
      example_world_def)

section \<open>Foreign directories (claim C6)\<close>

text \<open>
  Claim C6 says that \<open>list\<close> returns the valid folders and skips every other directory
  without throwing. It throws on the example with one valid folder and one directory
  whose \<open>package.json\<close> is not JSON: \<open>checkValidPluginFolder\<close> lets the \<open>SyntaxError\<close>
  of \<open>JSON.parse\<close> through instead of returning false.
\<close>

theorem list_throws_on_foreign_manifest:
  "checkValidPluginFolder example_platform foreign_files [''plugins'', ''flux''] = Inr True \<and>
   checkValidPluginFolder example_platform foreign_files [''plugins'', ''draft''] =
     Inl (SyntaxError ''Unexpected token in JSON'') \<and>
   list_dir example_platform [''plugins''] False \<lparr>fs = foreign_files, log = []\<rparr> =
     (Inl (SyntaxError ''Unexpected token in JSON''), \<lparr>fs = foreign_files, log = []\<rparr>)"
proof -
  have "checkValidPluginFolder example_platform foreign_files [''plugins'', ''flux''] = Inr True"
    by code_simp
  moreover have
    "checkValidPluginFolder example_platform foreign_files [''plugins'', ''draft''] =
       Inl (SyntaxError ''Unexpected token in JSON'')"
    by code_simp
  moreover have
    "list_dir example_platform [''plugins''] False \<lparr>fs = foreign_files, log = []\<rparr> =
       (Inl (SyntaxError ''Unexpected token in JSON''), \<lparr>fs = foreign_files, log = []\<rparr>)"
    by code_simp
  ultimately show ?thesis by blast
qed


section \<open>No update without a newer version (claim C5)\<close>

text \<open>
  Claim C5. When the version the registry reports is less than or equal to the version
  in the provenance record of the installed plugin (\<open>semver.lte\<close> says so), \<open>update\<close>
  fails with \<open>No updates available\<close>, thrown or reported to the callback, and the file
  system is what it was. And whenever \<open>update\<close> changes the file system at all, the
  plugin was found, its metadata fetched, and \<open>semver.lte\<close> has answered no: the registry's
  version is strictly greater.
\<close>

theorem update_only_to_newer_version:
  "(list_plugins env (fs w) destinationFolder = Inr installedPlugins \<and>
    find_plugin nm installedPlugins = Some plugin \<and>
    parse_file env (fs w) (destinationFolder @ [folderName plugin] @ [''package.json'']) =
      Inr packageJson \<and>
    fetchPluginInfo env (artifacthubURL plugin) cb signal w = (Inr pluginData, w1) \<and>
    getprop packageJson ''artifacthub'' = Inr hub \<and>
    getprop hub ''version'' = Inr (Str current) \<and>
    semver_lte env (version pluginData) current = Some True \<longrightarrow>
      update env nm destinationFolder headlampVersion cb signal w =
        (if cb then (Inr (), emit cb (failure (Error ''No updates available'')) w1)
         else (Inl (Error ''No updates available''), w1)) \<and>
      fs (snd (update env nm destinationFolder headlampVersion cb signal w)) = fs w) \<and>
   (fs (snd (update env nm destinationFolder headlampVersion cb signal w)) \<noteq> fs w \<longrightarrow>
      (\<exists>ps p pj latest w' h cur.
         list_plugins env (fs w) destinationFolder = Inr ps \<and>
         find_plugin nm ps = Some p \<and>
         parse_file env (fs w) (destinationFolder @ [folderName p] @ [''package.json'']) = Inr pj \<and>
         fetchPluginInfo env (artifacthubURL p) cb signal w = (Inr latest, w') \<and>
         getprop pj ''artifacthub'' = Inr h \<and>
         getprop h ''version'' = Inr (Str cur) \<and>
         semver_lte env (version latest) cur = Some False))"
proof (intro conjI impI)
  assume h: "list_plugins env (fs w) destinationFolder = Inr installedPlugins \<and>
    find_plugin nm installedPlugins = Some plugin \<and>
    parse_file env (fs w) (destinationFolder @ [folderName plugin] @ [''package.json'']) =
      Inr packageJson \<and>
    fetchPluginInfo env (artifacthubURL plugin) cb signal w = (Inr pluginData, w1) \<and>
    getprop packageJson ''artifacthub'' = Inr hub \<and>
    getprop hub ''version'' = Inr (Str current) \<and>
    semver_lte env (version pluginData) current = Some True"
  then show u: "update env nm destinationFolder headlampVersion cb signal w =
        (if cb then (Inr (), emit cb (failure (Error ''No updates available'')) w1)
         else (Inl (Error ''No updates available''), w1))"
    by (simp add: update_def list_dir_False semver_lte_js_def catch_report_def)
  from h have "fs w1 = fs w" using fs_fetchPluginInfo by blast
  with u show "fs (snd (update env nm destinationFolder headlampVersion cb signal w)) = fs w"
    by simp
next
  assume changed: "fs (snd (update env nm destinationFolder headlampVersion cb signal w)) \<noteq> fs w"
  show "\<exists>ps p pj latest w' h cur.
         list_plugins env (fs w) destinationFolder = Inr ps \<and>
         find_plugin nm ps = Some p \<and>
         parse_file env (fs w) (destinationFolder @ [folderName p] @ [''package.json'']) = Inr pj \<and>
         fetchPluginInfo env (artifacthubURL p) cb signal w = (Inr latest, w') \<and>
         getprop pj ''artifacthub'' = Inr h \<and>
         getprop h ''version'' = Inr (Str cur) \<and>
         semver_lte env (version latest) cur = Some False"
  proof (cases "list_plugins env (fs w) destinationFolder")
    case (Inl e)
    with changed show ?thesis
      by (simp add: update_def list_dir_False fs_catch_report)
  next
    case ps: (Inr ps)
    show ?thesis
    proof (cases "find_plugin nm ps")
      case None
      with changed ps show ?thesis
        by (simp add: update_def list_dir_False fs_catch_report)
    next
      case p: (Some p)
      show ?thesis
      proof (cases "parse_file env (fs w) (destinationFolder @ [folderName p] @ [''package.json''])")
        case (Inl e)
        with changed ps p show ?thesis
          by (simp add: update_def list_dir_False fs_catch_report)
      next
        case pj: (Inr pj)
        obtain r w' where f: "fetchPluginInfo env (artifacthubURL p) cb signal w = (r, w')"
          by (cases "fetchPluginInfo env (artifacthubURL p) cb signal w")
        then have fw: "fs w' = fs w" by (rule fs_fetchPluginInfo)
        show ?thesis
        proof (cases r)
          case (Inl e)
          with changed ps p pj f fw show ?thesis
            by (simp add: update_def list_dir_False fs_catch_report)
        next
          case latest: (Inr latest)
          show ?thesis
          proof (cases "getprop pj ''artifacthub''")
            case (Inl e)
            with changed ps p pj f fw latest show ?thesis
              by (simp add: update_def list_dir_False fs_catch_report)
          next
            case h: (Inr h)
            show ?thesis
            proof (cases "getprop h ''version''")
              case (Inl e)
              with changed ps p pj f fw latest h show ?thesis
                by (simp add: update_def list_dir_False fs_catch_report)
            next
              case v: (Inr v)
              show ?thesis
              proof (cases "semver_lte_js env (version latest) v")
                case (Inl e)
                with changed ps p pj f fw latest h v show ?thesis
                  by (simp add: update_def list_dir_False fs_catch_report)
              next
                case (Inr b)
                with changed ps p pj f fw latest h v have "\<not> b"
                  by (auto simp: update_def list_dir_False fs_catch_report)
                with Inr obtain cur where "v = Str cur" "semver_lte env (version latest) cur = Some False"
                  by (auto simp: semver_lte_js_def split: jsval.splits option.splits)
                with ps p pj f latest h v show ?thesis by blast
              qed
            qed
          qed
        qed
      qed
    qed
  qed
qed

theorem update_only_to_newer_version_witness:
  "semver_lte example_platform ''0.1.0'' ''0.1.0'' = Some True \<and>
   fst (update example_platform ''@headlamp-k8s/flux'' [''plugins''] [] True None example_world) =
     Inr () \<and>
   fs (snd (update example_platform ''@headlamp-k8s/flux'' [''plugins''] [] True None example_world)) =
     fs example_world \<and>
   fs (snd (update newer_platform ''@headlamp-k8s/flux'' [''plugins''] [] True None example_world))
     \<noteq> fs example_world \<and>
   (\<exists>latest cur. semver_lte newer_platform latest cur = Some False)"
proof -
  have lte: "semver_lte example_platform (version (example_pkg\<lparr>version := ''0.1.0''\<rparr>)) ''0.1.0'' =
      Some True"
    by (simp add: example_platform_def)
  have hub: "getprop installed_json ''artifacthub'' =
      Inr (Obj [(''title'', Str ''Flux''),
                (''url'', Str ''https://artifacthub.io/packages/headlamp/headlamp-plugins/flux''),
                (''version'', Str ''0.1.0'')])"
    by (simp add: installed_json_def)
  have cur: "getprop (Obj [(''title'', Str ''Flux''),
                (''url'', Str ''https://artifacthub.io/packages/headlamp/headlamp-plugins/flux''),
                (''version'', Str ''0.1.0'')]) ''version'' = Inr (Str ''0.1.0'')"
    by simp
  have same: "fst (update example_platform ''@headlamp-k8s/flux'' [''plugins''] [] True None
        example_world) = Inr () \<and>
      fs (snd (update example_platform ''@headlamp-k8s/flux'' [''plugins''] [] True None
        example_world)) = fs example_world"
    using update_only_to_newer_version [where env = example_platform and w = example_world
        and destinationFolder = "[''plugins'']" and installedPlugins = "[installed_plugin]"
        and nm = "''@headlamp-k8s/flux''" and plugin = installed_plugin
        and packageJson = installed_json and cb = True and signal = None
        and pluginData = "example_pkg\<lparr>version := ''0.1.0''\<rparr>"
        and ?w1.0 = "snd (fetchPluginInfo example_platform (artifacthubURL installed_plugin) True None
               example_world)"
        and hub = "Obj [(''title'', Str ''Flux''),
                (''url'', Str ''https://artifacthub.io/packages/headlamp/headlamp-plugins/flux''),
                (''version'', Str ''0.1.0'')]"
        and current = "''0.1.0''" and headlampVersion = "[]"]
      example_listed example_found example_manifest_parsed example_metadata lte hub cur
      fs_fetchPluginInfo [OF example_metadata]
    by simp
  have newer: "\<exists>latest cur. semver_lte newer_platform latest cur = Some False"
    using update_only_to_newer_version [where env = newer_platform and w = example_world
        and destinationFolder = "[''plugins'']" and nm = "''@headlamp-k8s/flux''"
        and cb = True and signal = None and headlampVersion = "[]"]
      newer_update_changes_files
    by blast
  show ?thesis
    using same newer newer_update_changes_files lte by simp
qed


section \<open>Uninstalling what is not managed (claim C7)\<close>

text \<open>
  Claim C7, as amended. \<open>uninstall\<close> never removes a folder that fails the validity
  check: whatever name it is called with, and whatever comes of the call, every such
  folder of the plugins directory is afterwards what it was. It finds its plugin in the
  result of \<open>list\<close>, which holds the folders that pass the check, each under the name of
  its manifest (or its own, when the manifest has none). So when \<open>list\<close> returns and
  every folder that bears the name fails the check, the error is \<open>Plugin not found\<close>
  (thrown, or reported to the callback) and nothing has changed; when \<open>list\<close> throws, the
  call ends with the error of \<open>list\<close>; and when a folder that bears the name passes the
  check, a plugin of that name is found and its folder is the one removed. A plugin
  that is found has passed the validity check, and the file system changes only by the
  recursive removal of the folder of a plugin found.
\<close>

theorem uninstall_spares_invalid_folders:
  "(checkValidPluginFolder env (fs w) (folder @ [d]) \<noteq> Inr True \<longrightarrow>
      lookup (fs (snd (uninstall env nm folder cb w))) (folder @ [d]) = lookup (fs w) (folder @ [d])) \<and>
   (list_plugins env (fs w) folder = Inr ps \<and>
    (\<forall>c. listed_name env (fs w) folder c = Inr (Str nm) \<longrightarrow>
           checkValidPluginFolder env (fs w) (folder @ [c]) \<noteq> Inr True) \<longrightarrow>
      uninstall env nm folder cb w =
        (if cb then (Inr (), emit cb (failure (Error ''Plugin not found'')) w)
         else (Inl (Error ''Plugin not found''), w))) \<and>
   (list_plugins env (fs w) folder = Inl e \<longrightarrow>
      uninstall env nm folder cb w =
        (if cb then (Inr (), emit cb (failure e) w) else (Inl e, w))) \<and>
   (list_plugins env (fs w) folder = Inr ps \<and>
    checkValidPluginFolder env (fs w) (folder @ [d]) = Inr True \<and>
    listed_name env (fs w) folder d = Inr (Str nm) \<longrightarrow>
      (\<exists>p. find_plugin nm ps = Some p \<and>
         listed_name env (fs w) folder (folderName p) = Inr (Str nm) \<and>
         fs (snd (uninstall env nm folder cb w)) =
           snd (rmdirSync (os_refuses env) (folder @ [folderName p]) (fs w)))) \<and>
   (list_plugins env (fs w) folder = Inr ps \<and> find_plugin nm ps = Some p \<longrightarrow>
      checkValidPluginFolder env (fs w) (folder @ [folderName p]) = Inr True) \<and>
   (fs (snd (uninstall env nm folder cb w)) \<noteq> fs w \<longrightarrow>
      (\<exists>qs q. list_plugins env (fs w) folder = Inr qs \<and> find_plugin nm qs = Some q \<and>
         checkValidPluginFolder env (fs w) (folder @ [folderName q]) = Inr True \<and>
         fs (snd (uninstall env nm folder cb w)) =
           snd (rmdirSync (os_refuses env) (folder @ [folderName q]) (fs w))))"
proof -
  have removal: "fs (snd (uninstall env nm folder cb' w)) =
          snd (rmdirSync (os_refuses env) (folder @ [folderName q]) (fs w))"
    if qs: "list_plugins env (fs w) folder = Inr qs" and q: "find_plugin nm qs = Some q"
    for cb' qs and q :: PluginData
    using fs_on_fs [of "rmdirSync (os_refuses env) (folder @ [folderName q])" w]
    by (auto simp: uninstall_found [OF qs q] fs_catch_report split: prod.splits sum.splits)
  have fs_cases: "fs (snd (uninstall env nm folder cb' w)) = fs w \<or>
      (\<exists>qs q. list_plugins env (fs w) folder = Inr qs \<and> find_plugin nm qs = Some q \<and>
         checkValidPluginFolder env (fs w) (folder @ [folderName q]) = Inr True \<and>
         fs (snd (uninstall env nm folder cb' w)) =
           snd (rmdirSync (os_refuses env) (folder @ [folderName q]) (fs w)))" for cb'
  proof (cases "list_plugins env (fs w) folder")
    case (Inl e)
    then show ?thesis by (simp add: uninstall_list_fails fs_catch_report)
  next
    case qs: (Inr qs)
    show ?thesis
    proof (cases "find_plugin nm qs")
      case None
      with qs show ?thesis by (simp add: uninstall_not_found fs_catch_report)
    next
      case (Some q)
      have v: "checkValidPluginFolder env (fs w) (folder @ [folderName q]) = Inr True"
        using qs Some listed_is_valid found_is_listed by blast
      with qs Some removal [OF qs Some] show ?thesis by blast
    qed
  qed
  have spare: "lookup (fs (snd (uninstall env nm folder cb w))) (folder @ [d]) =
      lookup (fs w) (folder @ [d])"
    if inv: "checkValidPluginFolder env (fs w) (folder @ [d]) \<noteq> Inr True"
  proof -
    from fs_cases [of cb] show ?thesis
    proof
      assume "fs (snd (uninstall env nm folder cb w)) = fs w"
      then show ?thesis by simp
    next
      assume "\<exists>qs q. list_plugins env (fs w) folder = Inr qs \<and> find_plugin nm qs = Some q \<and>
         checkValidPluginFolder env (fs w) (folder @ [folderName q]) = Inr True \<and>
         fs (snd (uninstall env nm folder cb w)) =
           snd (rmdirSync (os_refuses env) (folder @ [folderName q]) (fs w))"
      then obtain q :: PluginData where
        v: "checkValidPluginFolder env (fs w) (folder @ [folderName q]) = Inr True"
        and r: "fs (snd (uninstall env nm folder cb w)) =
           snd (rmdirSync (os_refuses env) (folder @ [folderName q]) (fs w))"
        by blast
      from v inv have "folderName q \<noteq> d" by auto
      then have "separate (folder @ [folderName q]) (folder @ [d])"
        by (rule separate_siblings)
      then show ?thesis unfolding r by (rule rmdirSync_frame)
    qed
  qed
  have nf: "uninstall env nm folder cb w =
        (if cb then (Inr (), emit cb (failure (Error ''Plugin not found'')) w)
         else (Inl (Error ''Plugin not found''), w))"
    if "list_plugins env (fs w) folder = Inr ps \<and>
        (\<forall>c. listed_name env (fs w) folder c = Inr (Str nm) \<longrightarrow>
           checkValidPluginFolder env (fs w) (folder @ [c]) \<noteq> Inr True)"
  proof -
    from that have "find_plugin nm ps = None"
      using no_valid_namesake_not_found by blast
    with that show ?thesis by (simp add: uninstall_not_found catch_report_def)
  qed
  have lf: "uninstall env nm folder cb w =
        (if cb then (Inr (), emit cb (failure e) w) else (Inl e, w))"
    if "list_plugins env (fs w) folder = Inl e"
    using that by (simp add: uninstall_list_fails catch_report_def)
  have fd: "\<exists>p. find_plugin nm ps = Some p \<and>
         listed_name env (fs w) folder (folderName p) = Inr (Str nm) \<and>
         fs (snd (uninstall env nm folder cb w)) =
           snd (rmdirSync (os_refuses env) (folder @ [folderName p]) (fs w))"
    if h: "list_plugins env (fs w) folder = Inr ps \<and>
        checkValidPluginFolder env (fs w) (folder @ [d]) = Inr True \<and>
        listed_name env (fs w) folder d = Inr (Str nm)"
  proof -
    from h obtain p where p: "find_plugin nm ps = Some p"
      using valid_namesake_found by blast
    then have "p \<in> set ps" "pluginName p = Str nm"
      using found_is_listed found_has_name by blast+
    with h have "listed_name env (fs w) folder (folderName p) = Inr (Str nm)"
      using listed_name_of by metis
    with p removal [of ps p cb] h show ?thesis by blast
  qed
  have vf: "checkValidPluginFolder env (fs w) (folder @ [folderName p]) = Inr True"
    if "list_plugins env (fs w) folder = Inr ps \<and> find_plugin nm ps = Some p"
    using that listed_is_valid found_is_listed by blast
  from spare nf lf fd vf fs_cases [of cb] show ?thesis by blast
qed

theorem uninstall_spares_invalid_folders_witness:
  "checkValidPluginFolder example_platform (fs example_world) ([''plugins''] @ [''my-tool'']) =
     Inr False \<and>
   listed_name example_platform (fs example_world) [''plugins''] ''my-tool'' =
     Inr (Str ''my-tool'') \<and>
   uninstall example_platform ''my-tool'' [''plugins''] True example_world =
     (Inr (), emit True (failure (Error ''Plugin not found'')) example_world) \<and>
   list_plugins example_platform (fs foreign_world) [''plugins''] =
     Inl (SyntaxError ''Unexpected token in JSON'') \<and>
   uninstall example_platform ''draft'' [''plugins''] False foreign_world =
     (Inl (SyntaxError ''Unexpected token in JSON''), foreign_world) \<and>
   checkValidPluginFolder example_platform (fs example_world) ([''plugins''] @ [''flux'']) =
     Inr True \<and>
   listed_name example_platform (fs example_world) [''plugins''] ''flux'' =
     Inr (Str ''@headlamp-k8s/flux'') \<and>
   fs (snd (uninstall example_platform ''@headlamp-k8s/flux'' [''plugins''] True example_world)) =
     snd (rmdirSync (os_refuses example_platform) ([''plugins''] @ [''flux'']) (fs example_world)) \<and>
   fs (snd (uninstall example_platform ''@headlamp-k8s/flux'' [''plugins''] True example_world)) \<noteq>
     fs example_world \<and>
   lookup (fs (snd (uninstall example_platform ''@headlamp-k8s/flux'' [''plugins''] True
                      example_world))) ([''plugins''] @ [''my-tool'']) =
     lookup (fs example_world) ([''plugins''] @ [''my-tool''])"
proof -
  have a: "uninstall example_platform ''my-tool'' [''plugins''] True example_world =
     (Inr (), emit True (failure (Error ''Plugin not found'')) example_world)"
    using uninstall_spares_invalid_folders [where env = example_platform and w = example_world
        and folder = "[''plugins'']" and nm = "''my-tool''" and cb = True
        and ps = "[installed_plugin]"]
      example_listed my_tool_no_valid_namesake
    by simp
  have b: "lookup (fs (snd (uninstall example_platform ''@headlamp-k8s/flux'' [''plugins''] True
                      example_world))) ([''plugins''] @ [''my-tool'']) =
     lookup (fs example_world) ([''plugins''] @ [''my-tool''])"
    using uninstall_spares_invalid_folders [where env = example_platform and w = example_world
        and folder = "[''plugins'']" and nm = "''@headlamp-k8s/flux''" and cb = True
        and d = "''my-tool''"]
      my_tool_invalid
    by simp
  have c: "uninstall example_platform ''draft'' [''plugins''] False foreign_world =
     (Inl (SyntaxError ''Unexpected token in JSON''), foreign_world)"
    using uninstall_spares_invalid_folders [where env = example_platform and w = foreign_world
        and folder = "[''plugins'']" and nm = "''draft''" and cb = False
        and e = "SyntaxError ''Unexpected token in JSON''"]
      draft_list_fails
    by simp
  have "\<exists>p. find_plugin ''@headlamp-k8s/flux'' [installed_plugin] = Some p \<and>
      fs (snd (uninstall example_platform ''@headlamp-k8s/flux'' [''plugins''] True example_world)) =
        snd (rmdirSync (os_refuses example_platform) ([''plugins''] @ [folderName p])
               (fs example_world))"
    using uninstall_spares_invalid_folders [where env = example_platform and w = example_world
        and folder = "[''plugins'']" and nm = "''@headlamp-k8s/flux''" and cb = True
        and d = "''flux''" and ps = "[installed_plugin]"]
      example_listed flux_valid flux_name
    by blast
  then have d: "fs (snd (uninstall example_platform ''@headlamp-k8s/flux'' [''plugins''] True
                          example_world)) =
     snd (rmdirSync (os_refuses example_platform) ([''plugins''] @ [''flux'']) (fs example_world))"
    using example_found by (auto simp: installed_plugin_def)
  show ?thesis
    using a b c d my_tool_invalid my_tool_name draft_list_fails flux_valid flux_name
      flux_uninstall_changes
    by simp
qed

text \<open>
  The claim as it was stated fails on the error: for the folder without the flag it is
  \<open>Plugin not found\<close>, not \<open>Invalid plugin folder\<close>.
\<close>

theorem uninstall_unmanaged_not_found_counterexample:
  "checkValidPluginFolder example_platform (fs example_world) [''plugins'', ''my-tool''] =
     Inr False \<and>
   uninstall example_platform ''my-tool'' [''plugins''] False example_world =
     (Inl (Error ''Plugin not found''), example_world)"
proof -
  have "checkValidPluginFolder example_platform (fs example_world) [''plugins'', ''my-tool''] =
     Inr False"
    by code_simp
  moreover have "uninstall example_platform ''my-tool'' [''plugins''] False example_world =
     (Inl (Error ''Plugin not found''), example_world)"
    by code_simp
  ultimately show ?thesis by blast
qed

section \<open>Moving the temporary directory (claim C8)\<close>

text \<open>
  Claim C8, as amended. \<open>moveDirs\<close> copies, then removes. A source that does not exist
  is an error and nothing changes. For a source and a destination neither of which lies
  in the other: when the copy fails, \<open>moveDirs\<close> ends with what the copy left and its
  error, nothing is removed and the source is intact; when the copy succeeds, the
  destination holds the whole source tree, also if the removal then fails; and when
  \<open>moveDirs\<close> returns normally the source is gone. (After a failed removal the source
  may be partly removed.)
\<close>

theorem moveDirs_copy_then_remove:
  "(lookup files currentPath = None \<longrightarrow>
      moveDirs env currentPath newPath files = (Inl (SystemError ''ENOENT''), files)) \<and>
   (separate currentPath newPath \<and> lookup files currentPath = Some src \<and> wf_node src \<longrightarrow>
      (fst (cpSync (os_refuses env) currentPath newPath files) \<noteq> Inr () \<longrightarrow>
         moveDirs env currentPath newPath files =
           cpSync (os_refuses env) currentPath newPath files \<and>
         lookup (snd (moveDirs env currentPath newPath files)) currentPath = Some src) \<and>
      (fst (cpSync (os_refuses env) currentPath newPath files) = Inr () \<longrightarrow>
         (\<exists>d. lookup (snd (moveDirs env currentPath newPath files)) newPath = Some d \<and>
              covers src d) \<and>
         (fst (moveDirs env currentPath newPath files) = Inr () \<longrightarrow>
            lookup (snd (moveDirs env currentPath newPath files)) currentPath = None)))"
proof (intro conjI impI)
  assume "lookup files currentPath = None"
  then show "moveDirs env currentPath newPath files = (Inl (SystemError ''ENOENT''), files)"
    by (simp add: moveDirs_def cpSync_def)
next
  assume h: "separate currentPath newPath \<and> lookup files currentPath = Some src \<and> wf_node src"
    and failed: "fst (cpSync (os_refuses env) currentPath newPath files) \<noteq> Inr ()"
  obtain r files1 where c: "cpSync (os_refuses env) currentPath newPath files = (r, files1)"
    by (cases "cpSync (os_refuses env) currentPath newPath files")
  with failed obtain e where "r = Inl e" by (cases r) auto
  with c show m: "moveDirs env currentPath newPath files =
      cpSync (os_refuses env) currentPath newPath files"
    by (simp add: moveDirs_def)
  from h cpSync_separate(1) [of currentPath newPath files src "os_refuses env"]
  show "lookup (snd (moveDirs env currentPath newPath files)) currentPath = Some src"
    unfolding m by blast
next
  assume h: "separate currentPath newPath \<and> lookup files currentPath = Some src \<and> wf_node src"
    and ok: "fst (cpSync (os_refuses env) currentPath newPath files) = Inr ()"
  obtain files1 where c: "cpSync (os_refuses env) currentPath newPath files = (Inr (), files1)"
    using ok by (cases "cpSync (os_refuses env) currentPath newPath files") auto
  have m: "snd (moveDirs env currentPath newPath files) =
      snd (rmSync (os_refuses env) currentPath files1)"
    using c by (auto simp: moveDirs_def split: prod.splits sum.splits)
  from h ok cpSync_separate(2) [of currentPath newPath files src "os_refuses env"] c
  obtain d where d: "lookup files1 newPath = Some d" "covers src d" by auto
  from h have "lookup (snd (rmSync (os_refuses env) currentPath files1)) newPath =
      lookup files1 newPath"
    using rmSync_separate by blast
  with d m show "\<exists>d. lookup (snd (moveDirs env currentPath newPath files)) newPath = Some d \<and>
      covers src d"
    by simp
next
  assume h: "separate currentPath newPath \<and> lookup files currentPath = Some src \<and> wf_node src"
    and ok: "fst (cpSync (os_refuses env) currentPath newPath files) = Inr ()"
    and finished: "fst (moveDirs env currentPath newPath files) = Inr ()"
  obtain files1 where c: "cpSync (os_refuses env) currentPath newPath files = (Inr (), files1)"
    using ok by (cases "cpSync (os_refuses env) currentPath newPath files") auto
  have m: "snd (moveDirs env currentPath newPath files) =
      snd (rmSync (os_refuses env) currentPath files1)"
    using c by (auto simp: moveDirs_def split: prod.splits sum.splits)
  have r: "fst (rmSync (os_refuses env) currentPath files1) = Inr ()"
    using c finished by (auto simp: moveDirs_def split: prod.splits sum.splits)
  from h separate_ne have "currentPath \<noteq> []" by blast
  from rmSync_gone [OF r this] m
  show "lookup (snd (moveDirs env currentPath newPath files)) currentPath = None"
    by simp
qed

theorem moveDirs_copy_then_remove_witness:
  "separate [''tmp'', ''staging''] [''plugins'', ''flux''] \<and>
   lookup staging_files [''tmp'', ''staging''] = Some staged_plugin \<and>
   wf_node staged_plugin \<and>
   fst (moveDirs example_platform [''tmp'', ''staging''] [''plugins'', ''flux''] staging_files) =
     Inr () \<and>
   lookup (snd (moveDirs example_platform [''tmp'', ''staging''] [''plugins'', ''flux'']
                  staging_files)) [''tmp'', ''staging''] = None \<and>
   (\<exists>d. lookup (snd (moveDirs example_platform [''tmp'', ''staging''] [''plugins'', ''flux'']
                       staging_files)) [''plugins'', ''flux''] = Some d \<and>
        covers staged_plugin d)"
proof -
  have 1: "separate [''tmp'', ''staging''] [''plugins'', ''flux'']"
    by (simp add: separate_def inside_def)
  have 2: "lookup staging_files [''tmp'', ''staging''] = Some staged_plugin"
    by (simp add: staging_files_def)
  have 3: "wf_node staged_plugin"
    by (simp add: staged_plugin_def)
  have 4: "fst (cpSync (os_refuses example_platform) [''tmp'', ''staging''] [''plugins'', ''flux'']
      staging_files) = Inr ()"
    by code_simp
  have 5: "fst (moveDirs example_platform [''tmp'', ''staging''] [''plugins'', ''flux'']
      staging_files) = Inr ()"
    by code_simp
  show ?thesis
    using 1 2 3 4 5
      moveDirs_copy_then_remove [of staging_files "[''tmp'', ''staging'']" example_platform
        "[''plugins'', ''flux'']" staged_plugin]
    by simp
qed

text \<open>
  The claim as it was stated fails when the removal is refused half-way: an error is
  thrown, and the source is neither gone nor intact.
\<close>

theorem moveDirs_removal_refused_counterexample:
  "lookup staging_files [''tmp'', ''staging''] = Some staged_plugin \<and>
   fst (moveDirs locked_platform [''tmp'', ''staging''] [''plugins'', ''flux''] staging_files) =
     Inl (SystemError ''EACCES'') \<and>
   lookup (snd (moveDirs locked_platform [''tmp'', ''staging''] [''plugins'', ''flux'']
                  staging_files)) [''tmp'', ''staging''] =
     Some (Dir [(''package.json'', File archive_manifest)]) \<and>
   lookup (snd (moveDirs locked_platform [''tmp'', ''staging''] [''plugins'', ''flux'']
                  staging_files)) [''plugins'', ''flux''] = Some staged_plugin"
proof -
  have "lookup staging_files [''tmp'', ''staging''] = Some staged_plugin"
    by (simp add: staging_files_def)
  moreover have
    "fst (moveDirs locked_platform [''tmp'', ''staging''] [''plugins'', ''flux''] staging_files) =
       Inl (SystemError ''EACCES'')"
    by code_simp
  moreover have
    "lookup (snd (moveDirs locked_platform [''tmp'', ''staging''] [''plugins'', ''flux'']
                  staging_files)) [''tmp'', ''staging''] =
     Some (Dir [(''package.json'', File archive_manifest)])"
    by code_simp
  moreover have
    "lookup (snd (moveDirs locked_platform [''tmp'', ''staging''] [''plugins'', ''flux'']
                  staging_files)) [''plugins'', ''flux''] = Some staged_plugin"
    by code_simp
  ultimately show ?thesis by blast
qed

end
